theory Spec2Isabelle
  imports Main
begin

section \<open>Errors and formatted text\<close>

text \<open>
  The status codes of \<^verbatim>\<open>vtrpcpb.Code\<close> that the modelled code produces.
\<close>

datatype Code =
    Code_CANCELED
  | Code_INVALID_ARGUMENT
  | Code_FAILED_PRECONDITION
  | Code_ABORTED
  | Code_RESOURCE_EXHAUSTED
  | Code_INTERNAL

text \<open>
  \<^verbatim>\<open>querypb.ExecuteOptions_TransactionIsolation\<close>. The protocol enum is open: a value
  on the wire that is none of the seven named ones is kept as \<open>UNRECOGNIZED n\<close>.
\<close>

datatype TransactionIsolation =
    DEFAULT
  | REPEATABLE_READ
  | READ_COMMITTED
  | READ_UNCOMMITTED
  | SERIALIZABLE
  | CONSISTENT_SNAPSHOT_READ_ONLY
  | AUTOCOMMIT
  | UNRECOGNIZED int

text \<open>
  An error value. \<open>Errorf c f args\<close> is \<^verbatim>\<open>vterrors.Errorf(c, f, args...)\<close>: the format
  string and its arguments are kept as they are passed, the text is not rendered.
  \<open>ErrCtxTimeout\<close> and \<open>ErrTimeout\<close> are the two sentinel errors of package
  \<^verbatim>\<open>pools\<close> that \<^verbatim>\<open>TxPool.Begin\<close> compares against. \<open>NotFound\<close> and \<open>InUse\<close> are
  the registry's own errors. \<open>ExternalErr c m\<close> is any other error handed back by a
  collaborator (a database connection, the topology server, the replication probe);
  \<open>c\<close> says whether \<^verbatim>\<open>mysql.IsConnErr\<close> holds of it, \<open>m\<close> is its \<^verbatim>\<open>Error()\<close> text.
\<close>

datatype fmtarg =
    ArgInt int
  | ArgStr string
  | ArgDuration int
  | ArgIsolation TransactionIsolation
  | ArgErr err
and err =
    Errorf Code string "fmtarg list"
  | ErrCtxTimeout
  | ErrTimeout
  | NotFound
  | InUse string
  | ExternalErr bool string

fun IsConnErr :: "err \<Rightarrow> bool" where
  "IsConnErr (ExternalErr c m) = c"
| "IsConnErr e = False"

text \<open>The result of \<^verbatim>\<open>fmt.Sprintf(f, args...)\<close>, kept unrendered; a plain string has no arguments.\<close>

type_synonym message = "string \<times> fmtarg list"

definition plain :: "string \<Rightarrow> message" where
  "plain s = (s, [])"

section \<open>The transaction pool: data\<close>

text \<open>These consts identify how a transaction was resolved.\<close>

definition TxClose :: string where "TxClose = ''close''"
definition TxCommit :: string where "TxCommit = ''commit''"
definition TxRollback :: string where "TxRollback = ''rollback''"
definition TxKill :: string where "TxKill = ''kill''"
definition ConnInitFail :: string where "ConnInitFail = ''initFail''"

text \<open>Times and durations are counted in nanoseconds, as \<^verbatim>\<open>time.Duration\<close> does.\<close>

definition txLogInterval :: int where
  "txLogInterval = 60 * 1000000000"

record queries =
  setIsolationLevel :: string
  openTransaction :: string

fun txIsolations :: "TransactionIsolation \<Rightarrow> queries option" where
  "txIsolations DEFAULT =
     Some \<lparr>setIsolationLevel = '''', openTransaction = ''begin''\<rparr>"
| "txIsolations REPEATABLE_READ =
     Some \<lparr>setIsolationLevel = ''REPEATABLE READ'', openTransaction = ''begin''\<rparr>"
| "txIsolations READ_COMMITTED =
     Some \<lparr>setIsolationLevel = ''READ COMMITTED'', openTransaction = ''begin''\<rparr>"
| "txIsolations READ_UNCOMMITTED =
     Some \<lparr>setIsolationLevel = ''READ UNCOMMITTED'', openTransaction = ''begin''\<rparr>"
| "txIsolations SERIALIZABLE =
     Some \<lparr>setIsolationLevel = ''SERIALIZABLE'', openTransaction = ''begin''\<rparr>"
| "txIsolations CONSISTENT_SNAPSHOT_READ_ONLY =
     Some \<lparr>setIsolationLevel = ''REPEATABLE READ'',
           openTransaction = ''start transaction with consistent snapshot, read only''\<rparr>"
| "txIsolations AUTOCOMMIT = None"
| "txIsolations (UNRECOGNIZED n) = None"

text \<open>
  The caller identities a request context carries, and the two accessors of package
  \<^verbatim>\<open>callerid\<close> that \<^verbatim>\<open>Begin\<close> uses; both accept a nil identity.
\<close>

record CallerID =
  principal :: string
  component :: string
  subcomponent :: string

record VTGateCallerID =
  username :: string
  groups :: "string list"

definition GetPrincipal :: "CallerID option \<Rightarrow> string" where
  "GetPrincipal ef = (case ef of None \<Rightarrow> '''' | Some c \<Rightarrow> principal c)"

definition GetUsername :: "VTGateCallerID option \<Rightarrow> string" where
  "GetUsername im = (case im of None \<Rightarrow> '''' | Some c \<Rightarrow> username c)"

record Context =
  immediateCallerID :: "VTGateCallerID option"
  effectiveCallerID :: "CallerID option"
  ctxDone :: bool

record ExecuteOptions =
  transactionIsolation :: TransactionIsolation
  clientFoundRows :: bool

text \<open>The generated getter is nil-safe: without options the isolation is the default.\<close>

definition GetTransactionIsolation :: "ExecuteOptions option \<Rightarrow> TransactionIsolation" where
  "GetTransactionIsolation options =
     (case options of None \<Rightarrow> DEFAULT | Some opts \<Rightarrow> transactionIsolation opts)"

text \<open>
  A transaction identifier (\<^verbatim>\<open>tx.ConnID = int64\<close>). The counter that issues them only
  grows, so a \<^verbatim>\<open>TxConnection\<close> object is addressed by its identifier in the store
  below; the counter is not bounded here.
\<close>

type_synonym ConnID = int

record TxProperties =
  LogToFile :: bool

text \<open>The pooled database connection a transaction owns, as far as this code reads it.\<close>

record DBConn =
  isClosed :: bool

text \<open>
  A task run when the connection is released. The only closure the pool registers
  releases the limiter slot of the two callers.
\<close>

datatype task = ReleaseLimiter "VTGateCallerID option" "CallerID option"

record TxConnection =
  dbConn :: "DBConn option"
  TransactionID :: ConnID
  StartTime :: int
  EndTime :: int
  Queries :: "string list"
  Conclusion :: string
  EffectiveCaller :: string
  ImmediateCaller :: string
  Autocommit :: bool
  reserved :: bool
  TxProps :: "TxProperties option"
  shutDownTasks :: "task list"

text \<open>
  What the pool does to its collaborators, in the order it does it: statements sent to a
  transaction's database connection, the connection closed or handed back to the
  connection pool, the registry entry removed, the limiter asked and released, the
  statistics and the transaction log written, a MySQL check requested.
\<close>

datatype event =
    EvExec ConnID string
  | EvDbClose ConnID
  | EvDbRecycle ConnID
  | EvUnregister ConnID message
  | EvLimiterGet "VTGateCallerID option" "CallerID option" bool
  | EvLimiterRelease "VTGateCallerID option" "CallerID option"
  | EvStats string string int
  | EvLogInfo ConnID
  | EvTxLogger ConnID
  | EvCheckMySQL

text \<open>An entry of the registry: whether the connection is checked out, why, and since when it is idle.\<close>

record numberedWrapper =
  inUse :: bool
  purpose :: string
  timeUsed :: int

text \<open>
  The pool with everything it reaches: the registry of active transactions and the
  identifier counter (both of \<^verbatim>\<open>ActivePool\<close>), the store of \<^verbatim>\<open>TxConnection\<close>
  objects, the timeout, the time of the last \<^verbatim>\<open>LogActive\<close>, the kill counter
  \<^verbatim>\<open>KillCounters["Transactions"]\<close> and the trace of events.
\<close>

record TxPool =
  active :: "(ConnID \<times> numberedWrapper) list"
  lastID :: ConnID
  txConns :: "ConnID \<Rightarrow> TxConnection"
  transactionTimeout :: int
  lastLog :: int
  killCounter :: int
  events :: "event list"

text \<open>
  What the collaborators answer during one call: the clock, the limiter, the connection
  pool asked for a connection, and the database asked to run a statement on the
  connection of a transaction.
\<close>

record Env =
  now :: int
  limiterGet :: "VTGateCallerID option \<Rightarrow> CallerID option \<Rightarrow> bool"
  poolGet :: "err + DBConn"
  dbExec :: "ConnID \<Rightarrow> string \<Rightarrow> err option"

definition emit :: "event \<Rightarrow> TxPool \<Rightarrow> TxPool" where
  "emit e tp = tp\<lparr>events := events tp @ [e]\<rparr>"

definition updConn :: "ConnID \<Rightarrow> (TxConnection \<Rightarrow> TxConnection) \<Rightarrow> TxPool \<Rightarrow> TxPool" where
  "updConn p f tp = tp\<lparr>txConns := (txConns tp)(p := f (txConns tp p))\<rparr>"

section \<open>The registry of active transactions\<close>

text \<open>
  Modelled from the spec: \<^verbatim>\<open>ActivePool\<close> (its file is not among the sources; only its
  calls in \<^verbatim>\<open>tx_pool.go\<close> are). The spec: a mapping from ConnID to TxConnection with
  unique keys that supports lookup, removal, an "outdated" scan (connections idle longer
  than a threshold and not checked out); \<^verbatim>\<open>Get\<close> checks a connection out and fails if
  the id is unknown or already concluded; at most one holder may operate on a
  TxConnection at a time.
\<close>

definition ActivePool_Get :: "ConnID \<Rightarrow> string \<Rightarrow> TxPool \<Rightarrow> (err + ConnID) \<times> TxPool" where
  "ActivePool_Get transactionID reason tp =
     (case map_of (active tp) transactionID of
        None \<Rightarrow> (Inl NotFound, tp)
      | Some w \<Rightarrow>
          if inUse w then (Inl (InUse (purpose w)), tp)
          else (Inr transactionID,
                tp\<lparr>active := map (\<lambda>(k, v). if k = transactionID
                                           then (k, v\<lparr>inUse := True, purpose := reason\<rparr>)
                                           else (k, v)) (active tp)\<rparr>))"

text \<open>Modelled from the spec: \<^verbatim>\<open>ActivePool.Unregister\<close>, the removal of an id from the registry.\<close>

definition ActivePool_Unregister :: "ConnID \<Rightarrow> message \<Rightarrow> TxPool \<Rightarrow> TxPool" where
  "ActivePool_Unregister transactionID reason tp =
     emit (EvUnregister transactionID reason)
       (tp\<lparr>active := filter (\<lambda>(k, v). k \<noteq> transactionID) (active tp)\<rparr>)"

text \<open>
  Modelled from the spec: \<^verbatim>\<open>ActivePool.MarkAsInactive\<close>, which ends a check-out; the
  connection is idle from now on.
\<close>

definition ActivePool_MarkAsInactive :: "Env \<Rightarrow> ConnID \<Rightarrow> TxPool \<Rightarrow> TxPool" where
  "ActivePool_MarkAsInactive env transactionID tp =
     tp\<lparr>active := map (\<lambda>(k, v). if k = transactionID
                                then (k, v\<lparr>inUse := False, purpose := '''', timeUsed := now env\<rparr>)
                                else (k, v)) (active tp)\<rparr>"

text \<open>
  Modelled from the spec: \<^verbatim>\<open>ActivePool.GetOutdated\<close>, the scan for connections idle
  longer than \<open>age\<close> and not checked out. The connections it returns are checked out for
  the given purpose, so that the scanner is their one holder.
\<close>

definition outdated :: "Env \<Rightarrow> int \<Rightarrow> numberedWrapper \<Rightarrow> bool" where
  "outdated env age w = (\<not> inUse w \<and> age < now env - timeUsed w)"

definition ActivePool_GetOutdated :: "Env \<Rightarrow> int \<Rightarrow> string \<Rightarrow> TxPool \<Rightarrow> ConnID list \<times> TxPool" where
  "ActivePool_GetOutdated env age reason tp =
     (map fst (filter (\<lambda>(k, v). outdated env age v) (active tp)),
      tp\<lparr>active := map (\<lambda>(k, v). if outdated env age v
                                 then (k, v\<lparr>inUse := True, purpose := reason\<rparr>)
                                 else (k, v)) (active tp)\<rparr>)"

text \<open>
  Modelled from the spec: \<^verbatim>\<open>ActivePool.ForAllTxProperties\<close>, which applies a function
  to the properties of every active transaction that has some.
\<close>

definition ActivePool_ForAllTxProperties :: "(TxProperties \<Rightarrow> TxProperties) \<Rightarrow> TxPool \<Rightarrow> TxPool" where
  "ActivePool_ForAllTxProperties f tp =
     foldl (\<lambda>s k. updConn k (\<lambda>c. c\<lparr>TxProps := map_option f (TxProps c)\<rparr>) s) tp (map fst (active tp))"

text \<open>Modelled from the spec: \<^verbatim>\<open>ActivePool.AdjustLastID\<close>; the counter never goes back.\<close>

definition ActivePool_AdjustLastID :: "ConnID \<Rightarrow> TxPool \<Rightarrow> TxPool" where
  "ActivePool_AdjustLastID n tp = (if lastID tp < n then tp\<lparr>lastID := n\<rparr> else tp)"

section \<open>The transaction connection\<close>

text \<open>
  A method of \<^verbatim>\<open>*TxConnection\<close> takes the address \<open>p\<close> of its receiver in the store.
  Row limits and the result rows of a statement are left out: no caller here reads them.
\<close>

text \<open>\<^verbatim>\<open>Close\<close> closes the connection.\<close>

definition TxConnection_Close :: "ConnID \<Rightarrow> TxPool \<Rightarrow> TxPool" where
  "TxConnection_Close p tp =
     (case dbConn (txConns tp p) of
        None \<Rightarrow> tp
      | Some d \<Rightarrow> emit (EvDbClose p) (updConn p (\<lambda>c. c\<lparr>dbConn := Some (d\<lparr>isClosed := True\<rparr>)\<rparr>) tp))"

text \<open>\<^verbatim>\<open>Exec\<close> executes the statement for the current transaction.\<close>

definition TxConnection_Exec :: "Env \<Rightarrow> Context \<Rightarrow> ConnID \<Rightarrow> string \<Rightarrow> TxPool \<Rightarrow> err option \<times> TxPool" where
  "TxConnection_Exec env ctx p query tp =
     (if dbConn (txConns tp p) = None
      then (Some (Errorf Code_ABORTED ''transaction was aborted: %v''
                    [ArgStr (Conclusion (txConns tp p))]), tp)
      else (case dbExec env p query of
              Some e \<Rightarrow>
                (Some e,
                 if IsConnErr e \<and> \<not> ctxDone ctx
                 then emit EvCheckMySQL (emit (EvExec p query) tp)
                 else emit (EvExec p query) tp)
            | None \<Rightarrow> (None, emit (EvExec p query) tp)))"

definition TxConnection_execWithRetry :: "Env \<Rightarrow> ConnID \<Rightarrow> string \<Rightarrow> TxPool \<Rightarrow> err option \<times> TxPool" where
  "TxConnection_execWithRetry env p query tp =
     (if dbConn (txConns tp p) = None then (None, tp)
      else (dbExec env p query, emit (EvExec p query) tp))"

fun runTask :: "task \<Rightarrow> TxPool \<Rightarrow> TxPool" where
  "runTask (ReleaseLimiter im ef) tp = emit (EvLimiterRelease im ef) tp"

text \<open>
  \<^verbatim>\<open>log\<close> records the conclusion and the end time, adds to the per-user count and
  timing statistics, logs the transaction when its properties ask for it and sends it
  to the transaction logger.
\<close>

definition TxConnection_log :: "Env \<Rightarrow> ConnID \<Rightarrow> string \<Rightarrow> TxPool \<Rightarrow> TxPool" where
  "TxConnection_log env p conclusion tp =
     (let tp1 = updConn p (\<lambda>c. c\<lparr>Conclusion := conclusion, EndTime := now env\<rparr>) tp;
          txc = txConns tp1 p;
          user = (if EffectiveCaller txc = [] then ImmediateCaller txc else EffectiveCaller txc);
          duration = EndTime txc - StartTime txc;
          tp2 = emit (EvStats user conclusion duration) tp1;
          tp3 = (if TxProps txc \<noteq> None \<and> LogToFile (the (TxProps txc))
                 then emit (EvLogInfo p) tp2 else tp2)
      in emit (EvTxLogger p) tp3)"

definition TxConnection_conclude :: "Env \<Rightarrow> ConnID \<Rightarrow> string \<Rightarrow> message \<Rightarrow> TxPool \<Rightarrow> TxPool" where
  "TxConnection_conclude env p conclusion reason tp =
     (if dbConn (txConns tp p) = None then tp
      else (let tp1 = ActivePool_Unregister (TransactionID (txConns tp p)) reason tp;
                tp2 = emit (EvDbRecycle p) tp1;
                tp3 = updConn p (\<lambda>c. c\<lparr>dbConn := None\<rparr>) tp2;
                tp4 = foldl (\<lambda>s t. runTask t s) tp3 (shutDownTasks (txConns tp3 p))
            in TxConnection_log env p conclusion tp4))"

text \<open>\<^verbatim>\<open>Release\<close> implements the \<^verbatim>\<open>tx.TrustedConnection\<close> interface.\<close>

definition TxConnection_Release :: "Env \<Rightarrow> ConnID \<Rightarrow> string \<Rightarrow> TxPool \<Rightarrow> TxPool" where
  "TxConnection_Release env p reason tp = TxConnection_conclude env p reason (plain reason) tp"

text \<open>\<^verbatim>\<open>Recycle\<close> returns the connection to the pool. The transaction remains active.\<close>

definition TxConnection_Recycle :: "Env \<Rightarrow> ConnID \<Rightarrow> TxPool \<Rightarrow> TxPool" where
  "TxConnection_Recycle env p tp =
     (case dbConn (txConns tp p) of
        None \<Rightarrow> tp
      | Some d \<Rightarrow>
          if isClosed d then TxConnection_Release env p TxClose tp
          else ActivePool_MarkAsInactive env (TransactionID (txConns tp p)) tp)"

text \<open>
  Modelled from the spec: \<^verbatim>\<open>ActivePool.NewConn\<close>. It asks the connection pool for a
  connection and hands the pool's error back if there is none; otherwise it creates the
  TxConnection under the next identifier, runs the caller's set-up function on it and
  registers it, idle and not checked out. A connection whose set-up or registration
  fails is released as \<^verbatim>\<open>ConnInitFail\<close> and the error is handed back. \<open>v\<close> are the
  variables the set-up closure captures.
\<close>

definition newTxConnection :: "DBConn \<Rightarrow> ConnID \<Rightarrow> int \<Rightarrow> string \<Rightarrow> string \<Rightarrow> TxConnection" where
  "newTxConnection d transactionID t effectiveCaller immediateCaller =
     \<lparr>dbConn = Some d, TransactionID = transactionID, StartTime = t, EndTime = 0,
      Queries = [], Conclusion = [], EffectiveCaller = effectiveCaller,
      ImmediateCaller = immediateCaller, Autocommit = False, reserved = False,
      TxProps = None, shutDownTasks = []\<rparr>"

definition ActivePool_NewConn ::
  "Env \<Rightarrow> string \<Rightarrow> string \<Rightarrow> (ConnID \<Rightarrow> 'v \<times> TxPool \<Rightarrow> err option \<times> 'v \<times> TxPool)
     \<Rightarrow> 'v \<times> TxPool \<Rightarrow> (err + ConnID) \<times> 'v \<times> TxPool" where
  "ActivePool_NewConn env effectiveCaller immediateCaller f vtp =
     (case poolGet env of
        Inl e \<Rightarrow> (Inl e, vtp)
      | Inr d \<Rightarrow>
          (let v = fst vtp; tp = snd vtp;
               transactionID = lastID tp + 1;
               tp1 = tp\<lparr>lastID := transactionID,
                        txConns := (txConns tp)(transactionID :=
                          newTxConnection d transactionID (now env) effectiveCaller immediateCaller)\<rparr>
           in (case f transactionID (v, tp1) of
                 (Some e, v2, tp2) \<Rightarrow>
                   (Inl e, v2, TxConnection_Release env transactionID ConnInitFail tp2)
               | (None, v2, tp2) \<Rightarrow>
                   if map_of (active tp2) transactionID \<noteq> None
                   then (Inl (ExternalErr False ''already present''), v2,
                         TxConnection_Release env transactionID ConnInitFail tp2)
                   else (Inr transactionID, v2,
                         tp2\<lparr>active := active tp2 @
                               [(transactionID,
                                 \<lparr>inUse = False, purpose = [], timeUsed = now env\<rparr>)]\<rparr>))))"

section \<open>The transaction pool: operations\<close>

text \<open>
  \<^verbatim>\<open>LogActive\<close> causes all existing transactions to be logged when they complete.
  The logging is throttled to no more than once every \<^verbatim>\<open>txLogInterval\<close>.
\<close>

definition TxPool_LogActive :: "Env \<Rightarrow> TxPool \<Rightarrow> TxPool" where
  "TxPool_LogActive env tp =
     (if now env - lastLog tp < txLogInterval then tp
      else ActivePool_ForAllTxProperties (\<lambda>props. props\<lparr>LogToFile := True\<rparr>)
             (tp\<lparr>lastLog := now env\<rparr>))"

definition TxPool_Timeout :: "TxPool \<Rightarrow> int" where
  "TxPool_Timeout tp = transactionTimeout tp"

text \<open>
  The function \<^verbatim>\<open>Begin\<close> passes to \<^verbatim>\<open>NewConn\<close>. It captures \<^verbatim>\<open>beginQueries\<close>, the
  text of the statements executed so far.
\<close>

definition beginFunc ::
  "Env \<Rightarrow> ExecuteOptions option \<Rightarrow> ConnID \<Rightarrow> string \<times> TxPool \<Rightarrow> err option \<times> string \<times> TxPool" where
  "beginFunc env options p btp =
     (let beginQueries = fst btp; tp = snd btp;
          finish = (\<lambda>autocommitTransaction b s.
                      (None, b, updConn p (\<lambda>c. c\<lparr>Autocommit := autocommitTransaction,
                                                 TxProps := Some \<lparr>LogToFile = False\<rparr>\<rparr>) s))
      in (case txIsolations (GetTransactionIsolation options) of
            Some qs \<Rightarrow>
              (if setIsolationLevel qs \<noteq> []
               then (case TxConnection_execWithRetry env p
                            (''set transaction isolation level '' @ setIsolationLevel qs) tp of
                       (Some e, tp1) \<Rightarrow> (Some e, beginQueries, tp1)
                     | (None, tp1) \<Rightarrow>
                         (case TxConnection_execWithRetry env p (openTransaction qs) tp1 of
                            (Some e, tp2) \<Rightarrow> (Some e, setIsolationLevel qs @ ''; '', tp2)
                          | (None, tp2) \<Rightarrow>
                              finish False (setIsolationLevel qs @ ''; '' @ openTransaction qs) tp2))
               else (case TxConnection_execWithRetry env p (openTransaction qs) tp of
                       (Some e, tp2) \<Rightarrow> (Some e, beginQueries, tp2)
                     | (None, tp2) \<Rightarrow> finish False (beginQueries @ openTransaction qs) tp2))
          | None \<Rightarrow>
              if GetTransactionIsolation options = AUTOCOMMIT
              then finish True beginQueries tp
              else (Some (Errorf Code_INTERNAL
                            ''don't know how to open a transaction of this type: %v''
                            [ArgIsolation (GetTransactionIsolation options)]),
                    beginQueries, tp)))"

text \<open>
  \<^verbatim>\<open>Begin\<close> begins a transaction, and returns the associated transaction id and the
  statements (if any) executed to initiate the transaction. In autocommit mode the
  statement will be the empty string.
\<close>

definition TxPool_Begin ::
  "Env \<Rightarrow> Context \<Rightarrow> ExecuteOptions option \<Rightarrow> TxPool \<Rightarrow> (ConnID \<times> string \<times> err option) \<times> TxPool" where
  "TxPool_Begin env ctx options tp =
     (let immediateCaller = immediateCallerID ctx;
          effectiveCaller = effectiveCallerID ctx
      in if \<not> limiterGet env immediateCaller effectiveCaller
         then ((0, [], Some (Errorf Code_RESOURCE_EXHAUSTED
                                 ''per-user transaction pool connection limit exceeded'' [])),
               emit (EvLimiterGet immediateCaller effectiveCaller False) tp)
         else (case ActivePool_NewConn env (GetPrincipal effectiveCaller)
                      (GetUsername immediateCaller) (beginFunc env options)
                      ([], emit (EvLimiterGet immediateCaller effectiveCaller True) tp) of
                 (Inl e, beginQueries, tp1) \<Rightarrow>
                   (if e = ErrCtxTimeout
                    then ((0, [], Some (Errorf Code_RESOURCE_EXHAUSTED
                            ''transaction pool aborting request due to already expired context'' [])),
                          TxPool_LogActive env tp1)
                    else if e = ErrTimeout
                    then ((0, [], Some (Errorf Code_RESOURCE_EXHAUSTED
                            ''transaction pool connection limit exceeded'' [])),
                          TxPool_LogActive env tp1)
                    else ((0, [], Some e), tp1))
               | (Inr p, beginQueries, tp1) \<Rightarrow>
                   ((TransactionID (txConns tp1 p), beginQueries, None),
                    updConn p (\<lambda>c. c\<lparr>shutDownTasks := shutDownTasks c @
                                       [ReleaseLimiter immediateCaller effectiveCaller]\<rparr>) tp1)))"

text \<open>\<^verbatim>\<open>Get\<close> fetches the connection associated to the transactionID.\<close>

definition TxPool_Get :: "ConnID \<Rightarrow> string \<Rightarrow> TxPool \<Rightarrow> (err + ConnID) \<times> TxPool" where
  "TxPool_Get transactionID reason tp =
     (case ActivePool_Get transactionID reason tp of
        (Inl e, tp1) \<Rightarrow>
          (Inl (Errorf Code_ABORTED ''transaction %d: %v'' [ArgInt transactionID, ArgErr e]), tp1)
      | (Inr conn, tp1) \<Rightarrow> (Inr conn, tp1))"

text \<open>
  \<^verbatim>\<open>LocalCommit\<close> is the commit function for \<^verbatim>\<open>LocalBegin\<close>. The release is deferred:
  it runs last on every path.
\<close>

definition TxPool_LocalCommit :: "Env \<Rightarrow> Context \<Rightarrow> ConnID \<Rightarrow> TxPool \<Rightarrow> (string \<times> err option) \<times> TxPool" where
  "TxPool_LocalCommit env ctx conn tp =
     (if Autocommit (txConns tp conn)
      then (([], None), TxConnection_Release env conn TxCommit tp)
      else (case TxConnection_Exec env ctx conn ''commit'' tp of
              (Some e, tp1) \<Rightarrow>
                (([], Some e), TxConnection_Release env conn TxCommit (TxConnection_Close conn tp1))
            | (None, tp1) \<Rightarrow>
                ((''commit'', None), TxConnection_Release env conn TxCommit tp1)))"

definition TxPool_localRollback :: "Env \<Rightarrow> Context \<Rightarrow> ConnID \<Rightarrow> TxPool \<Rightarrow> err option \<times> TxPool" where
  "TxPool_localRollback env ctx conn tp =
     (if Autocommit (txConns tp conn)
      then (None, TxConnection_Release env conn TxCommit tp)
      else (case TxConnection_Exec env ctx conn ''rollback'' tp of
              (Some e, tp1) \<Rightarrow>
                (Some e, TxConnection_Release env conn TxRollback (TxConnection_Close conn tp1))
            | (None, tp1) \<Rightarrow> (None, TxConnection_Release env conn TxRollback tp1)))"

text \<open>
  \<^verbatim>\<open>LocalConclude\<close> concludes a transaction started by \<^verbatim>\<open>LocalBegin\<close>. If the
  transaction was not previously concluded, it's rolled back.
\<close>

definition TxPool_LocalConclude :: "Env \<Rightarrow> Context \<Rightarrow> ConnID \<Rightarrow> TxPool \<Rightarrow> TxPool" where
  "TxPool_LocalConclude env ctx conn tp =
     (if dbConn (txConns tp conn) = None then tp
      else snd (TxPool_localRollback env ctx conn tp))"

text \<open>\<^verbatim>\<open>Commit\<close> commits the specified transaction.\<close>

definition TxPool_Commit :: "Env \<Rightarrow> Context \<Rightarrow> ConnID \<Rightarrow> TxPool \<Rightarrow> (string \<times> err option) \<times> TxPool" where
  "TxPool_Commit env ctx transactionID tp =
     (case TxPool_Get transactionID ''for commit'' tp of
        (Inl e, tp1) \<Rightarrow> (([], Some e), tp1)
      | (Inr conn, tp1) \<Rightarrow> TxPool_LocalCommit env ctx conn tp1)"

text \<open>\<^verbatim>\<open>Rollback\<close> rolls back the specified transaction.\<close>

definition TxPool_Rollback :: "Env \<Rightarrow> Context \<Rightarrow> ConnID \<Rightarrow> TxPool \<Rightarrow> err option \<times> TxPool" where
  "TxPool_Rollback env ctx transactionID tp =
     (case TxPool_Get transactionID ''for rollback'' tp of
        (Inl e, tp1) \<Rightarrow> (Some e, tp1)
      | (Inr conn, tp1) \<Rightarrow> TxPool_localRollback env ctx conn tp1)"

text \<open>\<^verbatim>\<open>LocalBegin\<close> is equivalent to \<^verbatim>\<open>Begin\<close> followed by \<^verbatim>\<open>Get\<close>.\<close>

definition TxPool_LocalBegin ::
  "Env \<Rightarrow> Context \<Rightarrow> ExecuteOptions option \<Rightarrow> TxPool \<Rightarrow> ((err + ConnID) \<times> string) \<times> TxPool" where
  "TxPool_LocalBegin env ctx options tp =
     (case TxPool_Begin env ctx options tp of
        ((transactionID, beginSQL, Some e), tp1) \<Rightarrow> ((Inl e, []), tp1)
      | ((transactionID, beginSQL, None), tp1) \<Rightarrow>
          (case TxPool_Get transactionID ''for local query'' tp1 of
             (r, tp2) \<Rightarrow> ((r, beginSQL), tp2)))"

text \<open>
  The transaction killer, run on every tick: every outdated connection is counted,
  closed and concluded as killed.
\<close>

definition killConn :: "Env \<Rightarrow> ConnID \<Rightarrow> TxPool \<Rightarrow> TxPool" where
  "killConn env conn tp =
     TxConnection_conclude env conn TxKill
       (''exceeded timeout: %v'', [ArgDuration (TxPool_Timeout tp)])
       (TxConnection_Close conn (tp\<lparr>killCounter := killCounter tp + 1\<rparr>))"

definition TxPool_transactionKiller :: "Env \<Rightarrow> TxPool \<Rightarrow> TxPool" where
  "TxPool_transactionKiller env tp =
     (case ActivePool_GetOutdated env (TxPool_Timeout tp) ''for tx killer rollback'' tp of
        (conns, tp1) \<Rightarrow> foldl (\<lambda>s conn. killConn env conn s) tp1 conns)"

section \<open>The health streamer\<close>

datatype TabletType =
    UNKNOWN
  | MASTER
  | REPLICA
  | RDONLY
  | SPARE
  | EXPERIMENTAL
  | BACKUP
  | RESTORE
  | DRAINED

record TabletAlias =
  Cell :: string
  Uid :: nat

record Target =
  Keyspace :: string
  Shard :: string
  TabletType :: TabletType

text \<open>
  \<^verbatim>\<open>querypb.RealtimeStats\<close> and \<^verbatim>\<open>querypb.StreamHealthResponse\<close>. \<open>'f\<close> stands for
  \<^verbatim>\<open>float64\<close>: the query rate is stored as the statistics hand it over and never
  computed with.
\<close>

record 'f RealtimeStats =
  HealthError :: string
  SecondsBehindMaster :: nat
  BinlogPlayersCount :: int
  SecondsBehindMasterFilteredReplication :: int
  Qps :: 'f

record 'f StreamHealthResponse =
  ResponseTarget :: "Target option"
  Serving :: bool
  TabletExternallyReparentedTimestamp :: int
  RealtimeStats :: "'f RealtimeStats"
  ResponseTabletAlias :: TabletAlias

text \<open>
  The streamer holds its snapshot through a pointer and sends pointers to its
  subscribers, so the responses live in a store: \<open>responses\<close> maps an address to the
  object there, \<open>nextResponse\<close> is the next address never handed out. \<open>state\<close> is the
  address of the snapshot. A subscriber is a channel with one slot; \<open>clients\<close> are the
  registered channels and \<open>channels\<close> gives the addresses queued in each channel.
  \<open>serving\<close> reflects the state of the state manager: the streamer may still broadcast
  as not serving if there are replication errors, or if lag is above threshold.
\<close>

record 'f healthStreamer =
  unhealthyThreshold :: int
  clients :: "nat list"
  state :: nat
  serving :: bool
  responses :: "nat \<Rightarrow> 'f StreamHealthResponse"
  nextResponse :: nat
  channels :: "nat \<Rightarrow> nat list"
  nextChannel :: nat

text \<open>
  What the collaborators answer during one broadcast: the replication-status probe (a lag
  in nanoseconds, or the text of its error), the binlog player status, the total query
  rate, and \<open>lagSeconds\<close>, the conversion \<^verbatim>\<open>uint32(lag.Seconds())\<close>, which goes
  through floating point and is taken as given.
\<close>

record 'f HealthEnv =
  replStatusFunc :: "string + int"
  blpStatusFunc :: "int \<times> int"
  totalRate :: 'f
  lagSeconds :: "int \<Rightarrow> nat"

text \<open>\<^verbatim>\<open>proto.Clone\<close>: a new object with the same content.\<close>

definition clone :: "nat \<Rightarrow> 'f healthStreamer \<Rightarrow> nat \<times> 'f healthStreamer" where
  "clone a hs =
     (nextResponse hs,
      hs\<lparr>responses := (responses hs)(nextResponse hs := responses hs a),
         nextResponse := Suc (nextResponse hs)\<rparr>)"

text \<open>
  The non-blocking send \<^verbatim>\<open>select { case ch <- shr: default: }\<close> on a channel of
  capacity one: the pointer is queued if the slot is free and dropped otherwise.
\<close>

definition trySend :: "nat \<Rightarrow> nat \<Rightarrow> 'f healthStreamer \<Rightarrow> 'f healthStreamer" where
  "trySend shr ch hs =
     (if length (channels hs ch) < 1
      then hs\<lparr>channels := (channels hs)(ch := channels hs ch @ [shr])\<rparr>
      else hs)"

definition register :: "'f healthStreamer \<Rightarrow> nat \<times> 'f healthStreamer" where
  "register hs =
     (let ch = nextChannel hs;
          hs1 = hs\<lparr>nextChannel := Suc ch, channels := (channels hs)(ch := []),
                   clients := clients hs @ [ch]\<rparr>;
          (shr, hs2) = clone (state hs1) hs1
      in (ch, hs2\<lparr>channels := (channels hs2)(ch := channels hs2 ch @ [shr])\<rparr>))"

definition unregister :: "nat \<Rightarrow> 'f healthStreamer \<Rightarrow> 'f healthStreamer" where
  "unregister ch hs = hs\<lparr>clients := filter (\<lambda>c. c \<noteq> ch) (clients hs)\<rparr>"

definition Broadcast :: "'f HealthEnv \<Rightarrow> 'f healthStreamer \<Rightarrow> 'f healthStreamer" where
  "Broadcast env hs =
     (if length (clients hs) = 0 then hs
      else
        (let st = responses hs (state hs);
             rs = RealtimeStats st;
             (rs1, healthy) =
                (case replStatusFunc env of
                   Inl e \<Rightarrow> (rs\<lparr>HealthError := e, SecondsBehindMaster := 0\<rparr>, False)
                 | Inr lag \<Rightarrow>
                     (rs\<lparr>HealthError := [], SecondsBehindMaster := lagSeconds env lag\<rparr>,
                      lag \<le> unhealthyThreshold hs));
             rs2 = rs1\<lparr>SecondsBehindMasterFilteredReplication := fst (blpStatusFunc env),
                       BinlogPlayersCount := snd (blpStatusFunc env),
                       Qps := totalRate env\<rparr>;
             st1 = st\<lparr>Serving := (serving hs \<and> healthy), RealtimeStats := rs2\<rparr>;
             hs1 = hs\<lparr>responses := (responses hs)(state hs := st1)\<rparr>;
             (shr, hs2) = clone (state hs1) hs1
         in foldl (\<lambda>h ch. trySend shr ch h) hs2 (clients hs2)))"

text \<open>
  \<^verbatim>\<open>ChangeState\<close> sets the role, the reparent timestamp and the serving flag. The
  snapshot has no target before \<^verbatim>\<open>InitDBConfig\<close>; writing through it then panics (\<open>None\<close>).
\<close>

definition ChangeState :: "TabletType \<Rightarrow> int \<Rightarrow> bool \<Rightarrow> 'f healthStreamer \<Rightarrow> 'f healthStreamer option" where
  "ChangeState tabletType terTimestamp srv hs =
     (let st = responses hs (state hs)
      in (case ResponseTarget st of
            None \<Rightarrow> None
          | Some tgt \<Rightarrow>
              Some (hs\<lparr>responses := (responses hs)(state hs :=
                          st\<lparr>ResponseTarget := Some (tgt\<lparr>TabletType := tabletType\<rparr>),
                             TabletExternallyReparentedTimestamp :=
                               (if tabletType = MASTER then terTimestamp else 0)\<rparr>),
                       serving := srv\<rparr>)))"

section \<open>The tablet picker\<close>

record Tablet =
  Alias :: "TabletAlias option"
  Hostname :: string
  Type :: TabletType

text \<open>
  The topology server, as far as the picker asks it. Each function is what the server
  answers: \<^verbatim>\<open>GetShard\<close> the primary alias of a shard (nil when the shard has none),
  \<^verbatim>\<open>GetCellsAlias\<close> the cells an alias stands for, \<^verbatim>\<open>GetShardReplication\<close> the tablet
  aliases of the nodes of a shard in a cell, \<^verbatim>\<open>GetTabletMap\<close> the tablets found for a
  list of aliases, keyed by \<^verbatim>\<open>topoproto.TabletAliasString\<close> of the alias. That key
  function is taken as given with the server.
\<close>

record TopoServer =
  GetShard :: "string \<Rightarrow> string \<Rightarrow> err + TabletAlias option"
  GetCellsAlias :: "string \<Rightarrow> err + string list"
  GetShardReplication :: "string \<Rightarrow> string \<Rightarrow> string \<Rightarrow> err + TabletAlias option list"
  GetTabletMap :: "TabletAlias option list \<Rightarrow> err + (string \<Rightarrow> Tablet option)"
  TabletAliasString :: "TabletAlias option \<Rightarrow> string"

record TabletPicker =
  cells :: "string list"
  keyspace :: string
  shard :: string
  tabletTypes :: "TabletType list"

definition IsTypeInList :: "TabletType \<Rightarrow> TabletType list \<Rightarrow> bool" where
  "IsTypeInList tabletType types = (tabletType \<in> set types)"

text \<open>The first loop: check if each cell is actually an alias; if it is not, assume it is a cell.\<close>

fun expandCells :: "TopoServer \<Rightarrow> string list \<Rightarrow> string list \<Rightarrow> string list" where
  "expandCells ts [] actualCells = actualCells"
| "expandCells ts (c # cs) actualCells =
     (case GetCellsAlias ts c of
        Inl e \<Rightarrow> expandCells ts cs (actualCells @ [c])
      | Inr alias \<Rightarrow> expandCells ts cs (actualCells @ alias))"

text \<open>The second loop: match cell, keyspace and shard; a cell whose lookup fails is skipped.\<close>

fun collectAliases ::
  "TopoServer \<Rightarrow> string \<Rightarrow> string \<Rightarrow> string list \<Rightarrow> TabletAlias option list \<Rightarrow> TabletAlias option list" where
  "collectAliases ts ks sh [] aliases = aliases"
| "collectAliases ts ks sh (c # cs) aliases =
     (case GetShardReplication ts c ks sh of
        Inl e \<Rightarrow> collectAliases ts ks sh cs aliases
      | Inr nodes \<Rightarrow> collectAliases ts ks sh cs (aliases @ nodes))"

text \<open>The last loop: a tablet that disappeared is left out, and so is one of another type.\<close>

fun selectTablets ::
  "TopoServer \<Rightarrow> (string \<Rightarrow> Tablet option) \<Rightarrow> TabletType list \<Rightarrow> TabletAlias option list
     \<Rightarrow> Tablet list \<Rightarrow> Tablet list" where
  "selectTablets ts tabletMap types [] tablets = tablets"
| "selectTablets ts tabletMap types (a # as) tablets =
     (case tabletMap (TabletAliasString ts a) of
        None \<Rightarrow> selectTablets ts tabletMap types as tablets
      | Some tabletInfo \<Rightarrow>
          if IsTypeInList (Type tabletInfo) types
          then selectTablets ts tabletMap types as (tablets @ [tabletInfo])
          else selectTablets ts tabletMap types as tablets)"

text \<open>
  \<^verbatim>\<open>getMatchingTablets\<close> returns a list of tablets that match the cells, keyspace,
  shard and tabletTypes for this TabletPicker. A nil slice is the empty list.
\<close>

definition getMatchingTablets :: "TopoServer \<Rightarrow> TabletPicker \<Rightarrow> Tablet list" where
  "getMatchingTablets ts tp =
     (case (if length (tabletTypes tp) = 1 \<and> hd (tabletTypes tp) = MASTER
            then (case GetShard ts (keyspace tp) (shard tp) of
                    Inl e \<Rightarrow> None
                  | Inr masterAlias \<Rightarrow> Some ([] @ [masterAlias]))
            else Some (collectAliases ts (keyspace tp) (shard tp)
                         (expandCells ts (cells tp) []) [])) of
        None \<Rightarrow> []
      | Some aliases \<Rightarrow>
          if length aliases = 0 then []
          else (case GetTabletMap ts aliases of
                  Inl e \<Rightarrow> []
                | Inr tabletMap \<Rightarrow> selectTablets ts tabletMap (tabletTypes tp) aliases []))"

section \<open>The state manager\<close>

datatype servingState = StateNotConnected | StateNotServing | StateServing

text \<open>
  Modelled from the spec: the state manager (its file is not among the sources; only its
  tests are). It holds the currently-applied configuration (the tablet type, the wanted
  state and the triggering error of the last transition), the achieved state, the node's
  current target, whether replication is healthy, the tablet types also allowed, the
  count of requests in flight, the lameduck and retrying flags, and the role-change
  timestamp. What a transition calls on the subcomponents is not modelled: every
  executed transition is recorded in \<open>transitions\<close> by the tablet type and the state it
  goes to. A triggering error is kept as its text.
\<close>

record stateManager =
  wantTabletType :: TabletType
  wantState :: servingState
  transitionErr :: "string option"
  sm_state :: servingState
  sm_target :: Target
  replHealthy :: bool
  alsoAllow :: "TabletType list"
  requests :: int
  lameduck :: bool
  retrying :: bool
  terTimestamp :: int
  transitions :: "(TabletType \<times> servingState) list"

text \<open>
  Modelled from the spec: RESTORE and BACKUP tablet types never reach SERVING regardless
  of the requested WantState; a transition into either always lands in NOT_CONNECTED.
\<close>

definition landingState :: "TabletType \<Rightarrow> servingState \<Rightarrow> servingState" where
  "landingState tabletType st =
     (if tabletType = RESTORE \<or> tabletType = BACKUP then StateNotConnected else st)"

text \<open>
  Modelled from the spec: the transition itself. \<open>failure\<close> is the error of the first
  Open-type call that fails, if one does. A failed transition leaves the achieved state
  at its previous value, surfaces the error and sets the retrying flag, which a
  successful transition clears.
\<close>

definition execTransition ::
  "string option \<Rightarrow> TabletType \<Rightarrow> servingState \<Rightarrow> stateManager \<Rightarrow> string option \<times> stateManager" where
  "execTransition failure tabletType st sm =
     (let sm1 = sm\<lparr>transitions := transitions sm @ [(tabletType, landingState tabletType st)]\<rparr>
      in (case failure of
            Some e \<Rightarrow> (Some e, sm1\<lparr>retrying := True\<rparr>)
          | None \<Rightarrow>
              (None, sm1\<lparr>sm_state := landingState tabletType st,
                         sm_target := (sm_target sm)\<lparr>TabletType := tabletType\<rparr>,
                         retrying := False\<rparr>)))"

text \<open>
  Modelled from the spec: \<^verbatim>\<open>SetServingType(tabletType, roleChangeTimestamp, wantState,
  triggeringError)\<close> returns \<open>(changed, err)\<close>. A transition is a no-op (returns
  changed = false) only when tabletType, wantState and triggeringError are identical to
  the currently-applied configuration. The tests show that the call ends lameduck.
\<close>

definition SetServingType ::
  "string option \<Rightarrow> TabletType \<Rightarrow> int \<Rightarrow> servingState \<Rightarrow> string option \<Rightarrow> stateManager
     \<Rightarrow> (bool \<times> string option) \<times> stateManager" where
  "SetServingType failure tabletType roleChangeTimestamp st triggeringError sm =
     (if tabletType = wantTabletType sm \<and> st = wantState sm \<and> triggeringError = transitionErr sm
      then ((False, None), sm\<lparr>lameduck := False\<rparr>)
      else (case execTransition failure tabletType st
                   (sm\<lparr>wantTabletType := tabletType, wantState := st,
                       transitionErr := triggeringError, terTimestamp := roleChangeTimestamp,
                       lameduck := False\<rparr>) of
              (e, sm1) \<Rightarrow> ((True, e), sm1)))"

text \<open>A call of \<^verbatim>\<open>SetServingType\<close> with what the subcomponents answer to it, and a run of such calls.\<close>

record servingCall =
  callFailure :: "string option"
  callTabletType :: TabletType
  callTimestamp :: int
  callWantState :: servingState
  callErr :: "string option"

fun runCalls :: "servingCall list \<Rightarrow> stateManager \<Rightarrow> bool list \<times> stateManager" where
  "runCalls [] sm = ([], sm)"
| "runCalls (c # cs) sm =
     (case SetServingType (callFailure c) (callTabletType c) (callTimestamp c)
             (callWantState c) (callErr c) sm of
        ((changed, e), sm1) \<Rightarrow>
          (case runCalls cs sm1 of (rest, sm2) \<Rightarrow> (changed # rest, sm2)))"




definition EndRequest :: "stateManager \<Rightarrow> stateManager" where
  "EndRequest sm = sm\<lparr>requests := requests sm - 1\<rparr>"

section \<open>Notions used to state the properties\<close>

definition beginText :: "queries \<Rightarrow> string" where
  "beginText qs = (if setIsolationLevel qs = [] then [] else setIsolationLevel qs @ ''; '') @ openTransaction qs"

definition beginStatements :: "queries \<Rightarrow> string list" where
  "beginStatements qs = (if setIsolationLevel qs = [] then [] else [''set transaction isolation level '' @ setIsolationLevel qs]) @ [openTransaction qs]"

fun taskEvent :: "task \<Rightarrow> event" where
  "taskEvent (ReleaseLimiter im ef) = EvLimiterRelease im ef"

definition concludeEvents :: "Env \<Rightarrow> ConnID \<Rightarrow> string \<Rightarrow> message \<Rightarrow> TxConnection \<Rightarrow> event list" where
  "concludeEvents env p conclusion reason txc =
     [EvUnregister (TransactionID txc) reason, EvDbRecycle p] @
     map taskEvent (shutDownTasks txc) @
     [EvStats (if EffectiveCaller txc = [] then ImmediateCaller txc else EffectiveCaller txc)
        conclusion (now env - StartTime txc)] @
     (if TxProps txc \<noteq> None \<and> LogToFile (the (TxProps txc)) then [EvLogInfo p] else []) @
     [EvTxLogger p]"

text \<open>
  The calls that conclude a connection, each with what the collaborators answer to it,
  and a run of such calls on one connection.
\<close>

datatype concludeCall =
    CallRelease string
  | CallConclude string message
  | CallLocalConclude Context

fun runConclude :: "ConnID \<Rightarrow> Env \<times> concludeCall \<Rightarrow> TxPool \<Rightarrow> TxPool" where
  "runConclude p (env, CallRelease reason) tp = TxConnection_Release env p reason tp"
| "runConclude p (env, CallConclude conclusion reason) tp = TxConnection_conclude env p conclusion reason tp"
| "runConclude p (env, CallLocalConclude ctx) tp = TxPool_LocalConclude env ctx p tp"

definition runConcludes :: "ConnID \<Rightarrow> (Env \<times> concludeCall) list \<Rightarrow> TxPool \<Rightarrow> TxPool" where
  "runConcludes p calls tp = foldl (\<lambda>s call. runConclude p call s) tp calls"

text \<open>The statements sent to database connections, in order, among the events.\<close>

fun statements :: "event list \<Rightarrow> (ConnID \<times> string) list" where
  "statements [] = []"
| "statements (EvExec p q # es) = (p, q) # statements es"
| "statements (e # es) = statements es"

text \<open>Whether the replication-status probe reports a lag within the unhealthy threshold.\<close>

definition healthy :: "'f HealthEnv \<Rightarrow> 'f healthStreamer \<Rightarrow> bool" where
  "healthy env hs = (case replStatusFunc env of Inl e \<Rightarrow> False | Inr lag \<Rightarrow> lag \<le> unhealthyThreshold hs)"

text \<open>
  The picker's candidates in closed form: the cells that the configured cells resolve
  to through the cell-alias lookup, the tablet aliases of a shard in a list of cells, and
  the tablets found for a list of aliases that have one of the requested types.
\<close>

definition resolvedCells :: "TopoServer \<Rightarrow> string list \<Rightarrow> string list" where
  "resolvedCells ts cs =
     concat (map (\<lambda>c. case GetCellsAlias ts c of Inl e \<Rightarrow> [c] | Inr alias \<Rightarrow> alias) cs)"

definition shardAliases :: "TopoServer \<Rightarrow> string \<Rightarrow> string \<Rightarrow> string list \<Rightarrow> TabletAlias option list" where
  "shardAliases ts ks sh cs =
     concat (map (\<lambda>c. case GetShardReplication ts c ks sh of Inl e \<Rightarrow> [] | Inr nodes \<Rightarrow> nodes) cs)"

definition tabletsOfType :: "TopoServer \<Rightarrow> TabletType list \<Rightarrow> TabletAlias option list \<Rightarrow> Tablet list" where
  "tabletsOfType ts types aliases =
     (if aliases = [] then []
      else (case GetTabletMap ts aliases of
              Inl e \<Rightarrow> []
            | Inr tabletMap \<Rightarrow>
                concat (map (\<lambda>a. case tabletMap (TabletAliasString ts a) of
                                    None \<Rightarrow> []
                                  | Some t \<Rightarrow> if Type t \<in> set types then [t] else []) aliases)))"

text \<open>
  The configuration the state manager has applied, and the answers a run of
  \<^verbatim>\<open>SetServingType\<close> calls is expected to give: a call changes something exactly when
  its three arguments differ from those of the call before it (from the applied
  configuration, for the first call).
\<close>

definition appliedConfiguration :: "stateManager \<Rightarrow> TabletType \<times> servingState \<times> string option" where
  "appliedConfiguration sm = (wantTabletType sm, wantState sm, transitionErr sm)"

fun expectedChanges ::
  "servingCall list \<Rightarrow> TabletType \<times> servingState \<times> string option \<Rightarrow> bool list" where
  "expectedChanges [] cfg = []"
| "expectedChanges (c # cs) cfg =
     ((callTabletType c, callWantState c, callErr c) \<noteq> cfg)
       # expectedChanges cs (callTabletType c, callWantState c, callErr c)"

text \<open>
  The invariant of the registry: its identifiers are distinct, and every registered
  connection carries the identifier it is registered under and still owns its database
  connection.
\<close>

definition registryInv :: "TxPool \<Rightarrow> bool" where
  "registryInv tp =
     (distinct (map fst (active tp)) \<and>
      (\<forall>k \<in> set (map fst (active tp)).
         TransactionID (txConns tp k) = k \<and> dbConn (txConns tp k) \<noteq> None))"

text \<open>
  What the killer leaves of a connection, the events of killing the connection \<open>k\<close>, and
  the identifiers a scan at the time of \<open>env\<close> finds outdated.
\<close>

definition killed :: "Env \<Rightarrow> TxConnection \<Rightarrow> TxConnection" where
  "killed env txc = txc\<lparr>dbConn := None, Conclusion := TxKill, EndTime := now env\<rparr>"

definition killEvents :: "Env \<Rightarrow> TxPool \<Rightarrow> ConnID \<Rightarrow> event list" where
  "killEvents env tp k =
     EvDbClose k # concludeEvents env k TxKill
       (''exceeded timeout: %v'', [ArgDuration (transactionTimeout tp)]) (txConns tp k)"

definition outdatedIDs :: "Env \<Rightarrow> TxPool \<Rightarrow> ConnID list" where
  "outdatedIDs env tp =
     map fst (filter (\<lambda>(k, v). outdated env (transactionTimeout tp) v) (active tp))"

text \<open>
  The pool under concurrent use. Requests check connections out while the killer
  works: a tick of the killer is a scan, which hands it the outdated connections, and
  then one kill for each of them, and any step of a request may come in between. The
  state is the pool with the connections the killer has fetched and not yet killed.
\<close>

datatype poolStep =
    StepGet ConnID string
  | StepScan Env
  | StepKill Env

fun runStep :: "poolStep \<Rightarrow> TxPool \<times> ConnID list \<Rightarrow> TxPool \<times> ConnID list" where
  "runStep (StepGet transactionID reason) (tp, pending) =
     (snd (TxPool_Get transactionID reason tp), pending)"
| "runStep (StepScan env) (tp, pending) =
     (if pending = []
      then (case ActivePool_GetOutdated env (TxPool_Timeout tp) ''for tx killer rollback'' tp of
              (conns, tp1) \<Rightarrow> (tp1, conns))
      else (tp, pending))"
| "runStep (StepKill env) (tp, pending) =
     (case pending of
        [] \<Rightarrow> (tp, [])
      | conn # conns \<Rightarrow> (killConn env conn tp, conns))"

definition runSteps :: "poolStep list \<Rightarrow> TxPool \<times> ConnID list \<Rightarrow> TxPool \<times> ConnID list" where
  "runSteps steps s = foldl (\<lambda>s step. runStep step s) s steps"

text \<open>
  The connection \<open>k\<close> is checked out under the entry \<open>w\<close>, is the object \<open>c\<close> and its
  database connection has been closed \<open>n\<close> times, in a state of the pool that keeps
  the invariant and in which the killer holds registered connections other than \<open>k\<close>.
\<close>

definition heldBy :: "ConnID \<Rightarrow> numberedWrapper \<Rightarrow> TxConnection \<Rightarrow> nat \<Rightarrow> TxPool \<times> ConnID list \<Rightarrow> bool" where
  "heldBy k w c n s =
     (registryInv (fst s) \<and> distinct (snd s) \<and> set (snd s) \<subseteq> set (map fst (active (fst s)))
      \<and> k \<notin> set (snd s) \<and> map_of (active (fst s)) k = Some w \<and> inUse w
      \<and> txConns (fst s) k = c \<and> count_list (events (fst s)) (EvDbClose k) = n)"

text \<open>
  The invariant of the pool with its killer: the registry keeps its invariant, and the
  connections the killer has fetched are distinct, registered and checked out (by the
  scan that fetched them).
\<close>

definition killerInv :: "TxPool \<times> ConnID list \<Rightarrow> bool" where
  "killerInv s =
     (registryInv (fst s) \<and> distinct (snd s)
      \<and> (\<forall>k \<in> set (snd s). \<exists>w. map_of (active (fst s)) k = Some w \<and> inUse w))"

section \<open>Concrete inputs\<close>

text \<open>
  A pool with one idle transaction of the caller \<open>alice\<close>, the context of that caller,
  and collaborators that admit the caller, hand out a connection and accept every
  statement, one minute after the pool was last used.
\<close>

definition zeroConn :: TxConnection where
  "zeroConn =
     \<lparr>dbConn = None, TransactionID = 0, StartTime = 0, EndTime = 0, Queries = [],
      Conclusion = [], EffectiveCaller = [], ImmediateCaller = [], Autocommit = False,
      reserved = False, TxProps = None, shutDownTasks = []\<rparr>"

definition exampleCtx :: Context where
  "exampleCtx =
     \<lparr>immediateCallerID = Some \<lparr>username = ''alice'', groups = []\<rparr>,
      effectiveCallerID = None, ctxDone = False\<rparr>"

definition exampleConn :: TxConnection where
  "exampleConn =
     \<lparr>dbConn = Some \<lparr>isClosed = False\<rparr>, TransactionID = 7, StartTime = 100, EndTime = 0,
      Queries = [], Conclusion = [], EffectiveCaller = [], ImmediateCaller = ''alice'',
      Autocommit = False, reserved = False, TxProps = Some \<lparr>LogToFile = False\<rparr>,
      shutDownTasks = [ReleaseLimiter (Some \<lparr>username = ''alice'', groups = []\<rparr>) None]\<rparr>"

definition examplePool :: TxPool where
  "examplePool =
     \<lparr>active = [(7, \<lparr>inUse = False, purpose = [], timeUsed = 100\<rparr>)],
      lastID = 7,
      txConns = (\<lambda>p. zeroConn)(7 := exampleConn),
      transactionTimeout = 30000000000,
      lastLog = 0,
      killCounter = 0,
      events = []\<rparr>"

definition exampleEnv :: Env where
  "exampleEnv =
     \<lparr>now = 60000000100,
      limiterGet = (\<lambda>im ef. True),
      poolGet = Inr \<lparr>isClosed = False\<rparr>,
      dbExec = (\<lambda>p q. None)\<rparr>"

definition exampleOptions :: "TransactionIsolation \<Rightarrow> ExecuteOptions option" where
  "exampleOptions lvl = Some \<lparr>transactionIsolation = lvl, clientFoundRows = False\<rparr>"

text \<open>The same pool with the transaction in autocommit mode.\<close>

definition autocommitPool :: TxPool where
  "autocommitPool = updConn 7 (\<lambda>c. c\<lparr>Autocommit := True\<rparr>) examplePool"

text \<open>
  A streamer with two subscribers: channel 0 with a free slot, channel 1 with an earlier
  snapshot (at address 1) still queued. The probe reports three seconds of lag, under
  the threshold of two hours.
\<close>

definition exampleResponse :: "nat StreamHealthResponse" where
  "exampleResponse =
     \<lparr>ResponseTarget = Some \<lparr>Keyspace = ''ks'', Shard = ''0'', TabletType = REPLICA\<rparr>,
      Serving = False, TabletExternallyReparentedTimestamp = 0,
      RealtimeStats = \<lparr>HealthError = ''tabletserver uninitialized'', SecondsBehindMaster = 0,
                       BinlogPlayersCount = 0, SecondsBehindMasterFilteredReplication = 0, Qps = 0\<rparr>,
      ResponseTabletAlias = \<lparr>Cell = ''zone1'', Uid = 100\<rparr>\<rparr>"

definition exampleStreamer :: "nat healthStreamer" where
  "exampleStreamer =
     \<lparr>unhealthyThreshold = 7200000000000, clients = [0, 1], state = 0, serving = True,
      responses = (\<lambda>a. exampleResponse), nextResponse = 2,
      channels = (\<lambda>c. [])(1 := [1]), nextChannel = 2\<rparr>"

definition exampleHealthEnv :: "nat HealthEnv" where
  "exampleHealthEnv =
     \<lparr>replStatusFunc = Inr 3000000000, blpStatusFunc = (0, 0), totalRate = 5,
      lagSeconds = (\<lambda>d. nat (d div 1000000000))\<rparr>"

text \<open>
  A topology with the alias \<open>region\<close> for two cells, a primary and a replica in the first
  cell and a read-only tablet in the second, and two pickers: one for the primary,
  configured with a cell that does not exist, and one for the other roles.
\<close>

definition exampleTablet :: "string \<Rightarrow> nat \<Rightarrow> TabletType \<Rightarrow> Tablet" where
  "exampleTablet c u ty = \<lparr>Alias = Some \<lparr>Cell = c, Uid = u\<rparr>, Hostname = ''host'', Type = ty\<rparr>"

definition exampleTopo :: TopoServer where
  "exampleTopo =
     \<lparr>GetShard = (\<lambda>ks sh. if ks = ''ks'' \<and> sh = ''0''
                             then Inr (Some \<lparr>Cell = ''zone1'', Uid = 100\<rparr>)
                             else Inl (ExternalErr False ''node does not exist'')),
      GetCellsAlias = (\<lambda>c. if c = ''region'' then Inr [''zone1'', ''zone2'']
                              else Inl (ExternalErr False ''node does not exist'')),
      GetShardReplication = (\<lambda>c ks sh.
         if c = ''zone1'' then Inr [Some \<lparr>Cell = ''zone1'', Uid = 100\<rparr>, Some \<lparr>Cell = ''zone1'', Uid = 101\<rparr>]
         else if c = ''zone2'' then Inr [Some \<lparr>Cell = ''zone2'', Uid = 200\<rparr>]
         else Inl (ExternalErr False ''node does not exist'')),
      GetTabletMap = (\<lambda>as. Inr (\<lambda>k.
         if k = ''zone1-100'' then Some (exampleTablet ''zone1'' 100 MASTER)
         else if k = ''zone1-101'' then Some (exampleTablet ''zone1'' 101 REPLICA)
         else if k = ''zone2-200'' then Some (exampleTablet ''zone2'' 200 RDONLY)
         else None)),
      TabletAliasString = (\<lambda>a. case a of
           None \<Rightarrow> ''<nil>''
         | Some x \<Rightarrow> Cell x @ ''-'' @ (if Uid x = 100 then ''100''
                                        else if Uid x = 101 then ''101'' else ''200''))\<rparr>"

definition primaryPicker :: TabletPicker where
  "primaryPicker = \<lparr>cells = [''nowhere''], keyspace = ''ks'', shard = ''0'', tabletTypes = [MASTER]\<rparr>"

definition replicaPicker :: TabletPicker where
  "replicaPicker =
     \<lparr>cells = [''region''], keyspace = ''ks'', shard = ''0'', tabletTypes = [REPLICA, RDONLY]\<rparr>"

text \<open>
  A state manager as the tests create it, before any transition, and a call of
  \<^verbatim>\<open>SetServingType\<close> whose transition succeeds.
\<close>

definition newStateManager :: stateManager where
  "newStateManager =
     \<lparr>wantTabletType = UNKNOWN, wantState = StateNotConnected, transitionErr = None,
      sm_state = StateNotConnected,
      sm_target = \<lparr>Keyspace = [], Shard = [], TabletType = UNKNOWN\<rparr>,
      replHealthy = False, alsoAllow = [], requests = 0, lameduck = False, retrying = False,
      terTimestamp = 0, transitions = []\<rparr>"

definition exampleCall :: "TabletType \<Rightarrow> servingState \<Rightarrow> string option \<Rightarrow> servingCall" where
  "exampleCall tt st e =
     \<lparr>callFailure = None, callTabletType = tt, callTimestamp = 1, callWantState = st, callErr = e\<rparr>"




text \<open>
  A pool with three transactions a minute after transaction 7 was last used: 7 has been
  idle for longer than the timeout of thirty seconds, 8 is checked out, and 9 was used
  ten seconds ago.
\<close>

definition reaperPool :: TxPool where
  "reaperPool =
     \<lparr>active = [(7, \<lparr>inUse = False, purpose = [], timeUsed = 100\<rparr>),
                (8, \<lparr>inUse = True, purpose = ''for query'', timeUsed = 100\<rparr>),
                (9, \<lparr>inUse = False, purpose = [], timeUsed = 50000000100\<rparr>)],
      lastID = 9,
      txConns = (\<lambda>p. zeroConn)(7 := exampleConn, 8 := exampleConn\<lparr>TransactionID := 8\<rparr>,
                                  9 := exampleConn\<lparr>TransactionID := 9\<rparr>),
      transactionTimeout = 30000000000,
      lastLog = 0,
      killCounter = 0,
      events = []\<rparr>"

section \<open>What the small steps leave alone\<close>

lemma active_emit [simp]: "active (emit e tp) = active tp"
  by (simp add: emit_def)

lemma txConns_emit [simp]: "txConns (emit e tp) = txConns tp"
  by (simp add: emit_def)

lemma lastID_emit [simp]: "lastID (emit e tp) = lastID tp"
  by (simp add: emit_def)

lemma killCounter_emit [simp]: "killCounter (emit e tp) = killCounter tp"
  by (simp add: emit_def)

lemma transactionTimeout_emit [simp]: "transactionTimeout (emit e tp) = transactionTimeout tp"
  by (simp add: emit_def)

lemma lastLog_emit [simp]: "lastLog (emit e tp) = lastLog tp"
  by (simp add: emit_def)

lemma events_emit [simp]: "events (emit e tp) = events tp @ [e]"
  by (simp add: emit_def)

lemma active_updConn [simp]: "active (updConn p f tp) = active tp"
  by (simp add: updConn_def)

lemma lastID_updConn [simp]: "lastID (updConn p f tp) = lastID tp"
  by (simp add: updConn_def)

lemma killCounter_updConn [simp]: "killCounter (updConn p f tp) = killCounter tp"
  by (simp add: updConn_def)

lemma transactionTimeout_updConn [simp]: "transactionTimeout (updConn p f tp) = transactionTimeout tp"
  by (simp add: updConn_def)

lemma lastLog_updConn [simp]: "lastLog (updConn p f tp) = lastLog tp"
  by (simp add: updConn_def)

lemma events_updConn [simp]: "events (updConn p f tp) = events tp"
  by (simp add: updConn_def)

lemma txConns_updConn [simp]:
  "txConns (updConn p f tp) q = (if q = p then f (txConns tp p) else txConns tp q)"
  by (simp add: updConn_def)

lemma foldl_updConn_frame:
  "active (foldl (\<lambda>s k. updConn k g s) tp ks) = active tp \<and>
   lastID (foldl (\<lambda>s k. updConn k g s) tp ks) = lastID tp \<and>
   events (foldl (\<lambda>s k. updConn k g s) tp ks) = events tp \<and>
   killCounter (foldl (\<lambda>s k. updConn k g s) tp ks) = killCounter tp"
  by (induction ks arbitrary: tp) auto

lemma LogActive_frame:
  "active (TxPool_LogActive env tp) = active tp \<and>
   lastID (TxPool_LogActive env tp) = lastID tp \<and>
   events (TxPool_LogActive env tp) = events tp"
  by (simp add: TxPool_LogActive_def ActivePool_ForAllTxProperties_def foldl_updConn_frame)

section \<open>Begin\<close>

lemma NewConn_ok:
  assumes "poolGet env = Inr d"
  shows "ActivePool_NewConn env ef im f (v, tp) =
     (let transactionID = lastID tp + 1;
          tp1 = tp\<lparr>lastID := transactionID,
                   txConns := (txConns tp)(transactionID := newTxConnection d transactionID (now env) ef im)\<rparr>
      in (case f transactionID (v, tp1) of
            (Some e, v2, tp2) \<Rightarrow> (Inl e, v2, TxConnection_Release env transactionID ConnInitFail tp2)
          | (None, v2, tp2) \<Rightarrow>
              if map_of (active tp2) transactionID \<noteq> None
              then (Inl (ExternalErr False ''already present''), v2,
                    TxConnection_Release env transactionID ConnInitFail tp2)
              else (Inr transactionID, v2,
                    tp2\<lparr>active := active tp2 @ [(transactionID, \<lparr>inUse = False, purpose = [], timeUsed = now env\<rparr>)]\<rparr>)))"
  using assms by (simp add: ActivePool_NewConn_def Let_def)

lemma execWithRetry_fresh:
  "dbConn (txConns tp p) \<noteq> None \<Longrightarrow>
   TxConnection_execWithRetry env p q tp = (dbExec env p q, emit (EvExec p q) tp)"
  by (auto simp: TxConnection_execWithRetry_def)

lemma beginFunc_listed:
  assumes "txIsolations (GetTransactionIsolation options) = Some qs"
    and "dbConn (txConns tp p) \<noteq> None"
    and "\<forall>q \<in> set (beginStatements qs). dbExec env p q = None"
  shows "beginFunc env options p ([], tp) =
     (None, beginText qs,
      updConn p (\<lambda>c. c\<lparr>Autocommit := False, TxProps := Some \<lparr>LogToFile = False\<rparr>\<rparr>)
        (tp\<lparr>events := events tp @ map (EvExec p) (beginStatements qs)\<rparr>))"
  using assms
  by (auto simp: beginFunc_def Let_def execWithRetry_fresh beginText_def beginStatements_def emit_def)

lemma beginFunc_autocommit:
  assumes "GetTransactionIsolation options = AUTOCOMMIT"
  shows "beginFunc env options p ([], tp) =
     (None, [], updConn p (\<lambda>c. c\<lparr>Autocommit := True, TxProps := Some \<lparr>LogToFile = False\<rparr>\<rparr>) tp)"
  using assms by (simp add: beginFunc_def Let_def)

lemma beginFunc_unrecognized:
  assumes "GetTransactionIsolation options = UNRECOGNIZED n"
  shows "beginFunc env options p ([], tp) =
     (Some (Errorf Code_INTERNAL ''don't know how to open a transaction of this type: %v''
              [ArgIsolation (UNRECOGNIZED n)]), [], tp)"
  using assms by (simp add: beginFunc_def Let_def)

lemma Begin_admitted:
  assumes "limiterGet env (immediateCallerID ctx) (effectiveCallerID ctx)"
  shows "TxPool_Begin env ctx options tp =
    (case ActivePool_NewConn env (GetPrincipal (effectiveCallerID ctx))
                      (GetUsername (immediateCallerID ctx)) (beginFunc env options)
                      ([], emit (EvLimiterGet (immediateCallerID ctx) (effectiveCallerID ctx) True) tp) of
                 (Inl e, beginQueries, tp1) \<Rightarrow>
                   (if e = ErrCtxTimeout
                    then ((0, [], Some (Errorf Code_RESOURCE_EXHAUSTED
                            ''transaction pool aborting request due to already expired context'' [])),
                          TxPool_LogActive env tp1)
                    else if e = ErrTimeout
                    then ((0, [], Some (Errorf Code_RESOURCE_EXHAUSTED
                            ''transaction pool connection limit exceeded'' [])),
                          TxPool_LogActive env tp1)
                    else ((0, [], Some e), tp1))
               | (Inr p, beginQueries, tp1) \<Rightarrow>
                   ((TransactionID (txConns tp1 p), beginQueries, None),
                    updConn p (\<lambda>c. c\<lparr>shutDownTasks := shutDownTasks c @
                                       [ReleaseLimiter (immediateCallerID ctx) (effectiveCallerID ctx)]\<rparr>) tp1))"
  using assms by (simp add: TxPool_Begin_def Let_def)

lemma Begin_listed:
  assumes lim: "limiterGet env (immediateCallerID ctx) (effectiveCallerID ctx)"
    and pool: "poolGet env = Inr d"
    and fresh: "map_of (active tp) (lastID tp + 1) = None"
    and iso: "txIsolations (GetTransactionIsolation options) = Some qs"
    and ok: "\<forall>q \<in> set (beginStatements qs). dbExec env (lastID tp + 1) q = None"
  shows "fst (TxPool_Begin env ctx options tp) = (lastID tp + 1, beginText qs, None)"
    and "events (snd (TxPool_Begin env ctx options tp)) =
         events tp @ EvLimiterGet (immediateCallerID ctx) (effectiveCallerID ctx) True
           # map (EvExec (lastID tp + 1)) (beginStatements qs)"
  using fresh
  by (simp_all add: Begin_admitted[OF lim] NewConn_ok[OF pool] Let_def
        beginFunc_listed[OF iso _ ok] newTxConnection_def updConn_def)

lemma execWithRetry_frame:
  "active (snd (TxConnection_execWithRetry env p q tp)) = active tp \<and>
   lastID (snd (TxConnection_execWithRetry env p q tp)) = lastID tp \<and>
   txConns (snd (TxConnection_execWithRetry env p q tp)) = txConns tp"
  by (simp add: TxConnection_execWithRetry_def)

lemma beginFunc_frame:
  assumes "beginFunc env options p (b0, tp) = (r, b, tp')"
  shows "active tp' = active tp" and "lastID tp' = lastID tp"
    and "dbConn (txConns tp' p) = dbConn (txConns tp p)"
    and "TransactionID (txConns tp' p) = TransactionID (txConns tp p)"
    and "r = None \<Longrightarrow> Autocommit (txConns tp' p) = (GetTransactionIsolation options = AUTOCOMMIT)"
  using assms
  by (auto simp: beginFunc_def Let_def TxConnection_execWithRetry_def
           split: option.splits if_splits prod.splits)

lemma Begin_success:
  assumes "TxPool_Begin env ctx options tp = ((transactionID, sql, None), tp1)"
  shows "transactionID = lastID tp + 1"
    and "map_of (active tp) transactionID = None"
    and "active tp1 = active tp @ [(transactionID, \<lparr>inUse = False, purpose = [], timeUsed = now env\<rparr>)]"
    and "dbConn (txConns tp1 transactionID) \<noteq> None"
    and "TransactionID (txConns tp1 transactionID) = transactionID"
    and "Autocommit (txConns tp1 transactionID) = (GetTransactionIsolation options = AUTOCOMMIT)"
    and "lastID tp1 = transactionID"
proof -
  have lim: "limiterGet env (immediateCallerID ctx) (effectiveCallerID ctx)"
    using assms by (auto simp: TxPool_Begin_def Let_def split: if_splits)
  obtain d where pool: "poolGet env = Inr d"
    using assms
    by (cases "poolGet env") (auto simp: Begin_admitted[OF lim] ActivePool_NewConn_def split: if_splits)
  define tp0 where "tp0 = (emit (EvLimiterGet (immediateCallerID ctx) (effectiveCallerID ctx) True) tp)
      \<lparr>lastID := lastID tp + 1,
       txConns := (txConns tp)(lastID tp + 1 := newTxConnection d (lastID tp + 1) (now env)
          (GetPrincipal (effectiveCallerID ctx)) (GetUsername (immediateCallerID ctx)))\<rparr>"
  obtain r b tp' where bf: "beginFunc env options (lastID tp + 1) ([], tp0) = (r, b, tp')"
    by (metis prod_cases3)
  note fr = beginFunc_frame[OF bf]
  have base: "active tp0 = active tp" "dbConn (txConns tp0 (lastID tp + 1)) = Some d"
      "TransactionID (txConns tp0 (lastID tp + 1)) = lastID tp + 1"
      "lastID tp0 = lastID tp + 1"
    by (simp_all add: tp0_def newTxConnection_def)
  have all: "transactionID = lastID tp + 1 \<and> map_of (active tp) transactionID = None \<and>
     active tp1 = active tp @ [(transactionID, \<lparr>inUse = False, purpose = [], timeUsed = now env\<rparr>)] \<and>
     dbConn (txConns tp1 transactionID) \<noteq> None \<and> TransactionID (txConns tp1 transactionID) = transactionID \<and>
     Autocommit (txConns tp1 transactionID) = (GetTransactionIsolation options = AUTOCOMMIT) \<and>
     lastID tp1 = transactionID"
    using assms fr base bf
    by (cases r) (auto simp: Begin_admitted[OF lim] NewConn_ok[OF pool] Let_def tp0_def[symmetric]
          split: if_splits)
  show "transactionID = lastID tp + 1"
    and "map_of (active tp) transactionID = None"
    and "active tp1 = active tp @ [(transactionID, \<lparr>inUse = False, purpose = [], timeUsed = now env\<rparr>)]"
    and "dbConn (txConns tp1 transactionID) \<noteq> None"
    and "TransactionID (txConns tp1 transactionID) = transactionID"
    and "Autocommit (txConns tp1 transactionID) = (GetTransactionIsolation options = AUTOCOMMIT)"
    and "lastID tp1 = transactionID"
    using all by auto
qed

section \<open>Concluding a connection\<close>

lemma runTasks:
  "foldl (\<lambda>s t. runTask t s) tp ts = tp\<lparr>events := events tp @ map taskEvent ts\<rparr>"
proof (induction ts arbitrary: tp)
  case Nil
  then show ?case by simp
next
  case (Cons t ts)
  then show ?case by (cases t) (simp add: emit_def)
qed

lemma conclude_done:
  "dbConn (txConns tp p) = None \<Longrightarrow> TxConnection_conclude env p c r tp = tp"
  by (simp add: TxConnection_conclude_def)

lemma conclude_effect:
  assumes "dbConn (txConns tp p) \<noteq> None"
  shows "TxConnection_conclude env p c r tp =
     tp\<lparr>active := filter (\<lambda>(k, v). k \<noteq> TransactionID (txConns tp p)) (active tp),
        txConns := (txConns tp)(p := (txConns tp p)\<lparr>dbConn := None, Conclusion := c, EndTime := now env\<rparr>),
        events := events tp @ concludeEvents env p c r (txConns tp p)\<rparr>"
proof -
  obtain d where "dbConn (txConns tp p) = Some d"
    using assms by auto
  then show ?thesis
    by (simp add: TxConnection_conclude_def Let_def ActivePool_Unregister_def runTasks
          TxConnection_log_def emit_def updConn_def concludeEvents_def)
qed

lemma conclude_concluded:
  "dbConn (txConns (TxConnection_conclude env p c r tp) p) = None"
  by (cases "dbConn (txConns tp p) = None") (simp_all add: conclude_done conclude_effect)

section \<open>Statements, release and lookup\<close>

lemma statements_append [simp]: "statements (xs @ ys) = statements xs @ statements ys"
  by (induction xs rule: statements.induct) simp_all

lemma statements_tasks [simp]: "statements (map taskEvent ts) = []"
proof (induction ts)
  case Nil
  then show ?case by simp
next
  case (Cons t ts)
  then show ?case by (cases t) simp
qed

lemma statements_concludeEvents [simp]: "statements (concludeEvents env p c r txc) = []"
  by (simp add: concludeEvents_def)

lemma Release_effect:
  "TxConnection_Release env p r tp =
     (if dbConn (txConns tp p) = None then tp
      else tp\<lparr>active := filter (\<lambda>(k, v). k \<noteq> TransactionID (txConns tp p)) (active tp),
              txConns := (txConns tp)(p := (txConns tp p)\<lparr>dbConn := None, Conclusion := r, EndTime := now env\<rparr>),
              events := events tp @ concludeEvents env p r (plain r) (txConns tp p)\<rparr>)"
  by (simp add: TxConnection_Release_def conclude_done conclude_effect)

lemma map_of_filter_key [simp]: "map_of (filter (\<lambda>(k, v). k \<noteq> a) xs) a = None"
  by (induction xs) auto

lemma LocalCommit_autocommit:
  assumes "Autocommit (txConns tp conn)"
  shows "TxPool_LocalCommit env ctx conn tp = (([], None), TxConnection_Release env conn TxCommit tp)"
    and "TxPool_localRollback env ctx conn tp = (None, TxConnection_Release env conn TxCommit tp)"
  using assms by (simp_all add: TxPool_LocalCommit_def TxPool_localRollback_def)

lemma Get_idle:
  assumes "map_of (active tp) transactionID = Some w" and "\<not> inUse w"
  shows "TxPool_Get transactionID reason tp =
     (Inr transactionID,
      tp\<lparr>active := map (\<lambda>(k, v). if k = transactionID
                                 then (k, v\<lparr>inUse := True, purpose := reason\<rparr>)
                                 else (k, v)) (active tp)\<rparr>)"
  using assms by (simp add: TxPool_Get_def ActivePool_Get_def)

lemma Get_unknown:
  assumes "map_of (active tp) transactionID = None"
  shows "TxPool_Get transactionID reason tp =
     (Inl (Errorf Code_ABORTED ''transaction %d: %v'' [ArgInt transactionID, ArgErr NotFound]), tp)"
  using assms by (simp add: TxPool_Get_def ActivePool_Get_def)

lemma Close_frame:
  "active (TxConnection_Close p tp) = active tp"
  "(dbConn (txConns (TxConnection_Close p tp) q) = None) = (dbConn (txConns tp q) = None)"
  "TransactionID (txConns (TxConnection_Close p tp) q) = TransactionID (txConns tp q)"
  by (simp_all add: TxConnection_Close_def split: option.splits)

lemma Exec_frame:
  "active (snd (TxConnection_Exec env ctx p q tp)) = active tp"
  "txConns (snd (TxConnection_Exec env ctx p q tp)) = txConns tp"
  by (simp_all add: TxConnection_Exec_def split: option.splits)

lemma Exec_live:
  "dbConn (txConns tp p) \<noteq> None \<Longrightarrow> fst (TxConnection_Exec env ctx p q tp) = dbExec env p q"
  by (auto simp: TxConnection_Exec_def split: option.splits)

lemma LocalCommit_live:
  assumes live: "dbConn (txConns tp p) \<noteq> None" and tid: "TransactionID (txConns tp p) = p"
  shows "active (snd (TxPool_LocalCommit env ctx p tp)) = filter (\<lambda>(k, v). k \<noteq> p) (active tp)"
    and "Conclusion (txConns (snd (TxPool_LocalCommit env ctx p tp)) p) = TxCommit"
    and "fst (TxPool_LocalCommit env ctx p tp) =
           (if Autocommit (txConns tp p) then ([], None)
            else (case dbExec env p ''commit'' of None \<Rightarrow> (''commit'', None) | Some e \<Rightarrow> ([], Some e)))"
proof -
  obtain r tp1 where ex: "TxConnection_Exec env ctx p ''commit'' tp = (r, tp1)"
    by (cases "TxConnection_Exec env ctx p ''commit'' tp")
  have f1: "active tp1 = active tp" "txConns tp1 = txConns tp" "r = dbExec env p ''commit''"
    using Exec_frame[of env ctx p "''commit''" tp] Exec_live[OF live, of env ctx "''commit''"] ex
    by simp_all
  show "active (snd (TxPool_LocalCommit env ctx p tp)) = filter (\<lambda>(k, v). k \<noteq> p) (active tp)"
    and "Conclusion (txConns (snd (TxPool_LocalCommit env ctx p tp)) p) = TxCommit"
    and "fst (TxPool_LocalCommit env ctx p tp) =
           (if Autocommit (txConns tp p) then ([], None)
            else (case dbExec env p ''commit'' of None \<Rightarrow> (''commit'', None) | Some e \<Rightarrow> ([], Some e)))"
    using live tid f1
    by (auto simp: TxPool_LocalCommit_def ex Release_effect Close_frame split: option.splits)
qed

section \<open>The transaction killer\<close>

lemma concludeEvents_dbConn [simp]:
  "concludeEvents env p c r (txc\<lparr>dbConn := x\<rparr>) = concludeEvents env p c r txc"
  by (simp add: concludeEvents_def)

lemma killConn_effect:
  assumes live: "dbConn (txConns tp k) \<noteq> None" and tid: "TransactionID (txConns tp k) = k"
  shows "killConn env k tp =
     tp\<lparr>active := filter (\<lambda>(k', v). k' \<noteq> k) (active tp),
        txConns := (txConns tp)(k := killed env (txConns tp k)),
        killCounter := killCounter tp + 1,
        events := events tp @ killEvents env tp k\<rparr>"
proof -
  obtain d where d: "dbConn (txConns tp k) = Some d"
    using live by auto
  let ?tp1 = "TxConnection_Close k (tp\<lparr>killCounter := killCounter tp + 1\<rparr>)"
  have c: "?tp1 = tp\<lparr>killCounter := killCounter tp + 1,
                     txConns := (txConns tp)(k := (txConns tp k)\<lparr>dbConn := Some (d\<lparr>isClosed := True\<rparr>)\<rparr>),
                     events := events tp @ [EvDbClose k]\<rparr>"
    by (simp add: TxConnection_Close_def d emit_def updConn_def)
  have l1: "dbConn (txConns ?tp1 k) \<noteq> None"
    by (simp add: c)
  show ?thesis
    unfolding killConn_def conclude_effect[OF l1]
    by (simp add: c tid killed_def killEvents_def TxPool_Timeout_def)
qed

lemma killAll_effect:
  assumes "distinct ks"
    and "\<forall>k \<in> set ks. TransactionID (txConns tp k) = k \<and> dbConn (txConns tp k) \<noteq> None"
  shows "foldl (\<lambda>s conn. killConn env conn s) tp ks =
     tp\<lparr>active := filter (\<lambda>(k, v). k \<notin> set ks) (active tp),
        txConns := (\<lambda>q. if q \<in> set ks then killed env (txConns tp q) else txConns tp q),
        killCounter := killCounter tp + int (length ks),
        events := events tp @ concat (map (killEvents env tp) ks)\<rparr>"
  using assms
proof (induction ks arbitrary: tp)
  case Nil
  then show ?case by simp
next
  case (Cons k ks)
  let ?tp1 = "killConn env k tp"
  have e: "?tp1 = tp\<lparr>active := filter (\<lambda>(k', v). k' \<noteq> k) (active tp),
        txConns := (txConns tp)(k := killed env (txConns tp k)),
        killCounter := killCounter tp + 1,
        events := events tp @ killEvents env tp k\<rparr>"
    using Cons.prems(2) by (simp add: killConn_effect)
  have d: "distinct ks" and nk: "k \<notin> set ks"
    using Cons.prems(1) by simp_all
  have p: "\<forall>k' \<in> set ks. TransactionID (txConns ?tp1 k') = k' \<and> dbConn (txConns ?tp1 k') \<noteq> None"
    using Cons.prems(2) nk by (auto simp: e)
  have ke: "map (killEvents env ?tp1) ks = map (killEvents env tp) ks"
    using nk by (auto simp: e killEvents_def)
  have f: "filter (\<lambda>(k', v). k' \<notin> set ks) (filter (\<lambda>(k', v). k' \<noteq> k) (active tp)) =
           filter (\<lambda>(k', v). k' \<notin> set (k # ks)) (active tp)"
    by (induction "active tp") (auto intro: filter_cong)
  have t: "(\<lambda>q. if q \<in> set ks then killed env (txConns ?tp1 q) else txConns ?tp1 q) =
           (\<lambda>q. if q \<in> set (k # ks) then killed env (txConns tp q) else txConns tp q)"
    using nk by (auto simp: e fun_eq_iff)
  show ?case
    by (simp add: Cons.IH[OF d p] ke t) (simp add: e case_prod_unfold)
qed

lemma sweep_marked:
  assumes "\<forall>(k, v) \<in> set xs. (k \<in> S) = P v"
  shows "filter (\<lambda>(k, v). k \<notin> S) (map (\<lambda>(k, v). if P v then (k, f v) else (k, v)) xs) =
         filter (\<lambda>(k, v). \<not> P v) xs"
  using assms by (induction xs) auto

lemma outdated_keys:
  assumes "distinct (map fst xs)" and "(k, v) \<in> set xs"
  shows "(k \<in> set (map fst (filter (\<lambda>(k, v). P v) xs))) = P v"
proof
  assume "k \<in> set (map fst (filter (\<lambda>(k, v). P v) xs))"
  then obtain v' where "(k, v') \<in> set xs" and "P v'"
    by auto
  with assms show "P v"
    using eq_key_imp_eq_value by fastforce
next
  assume "P v"
  with assms(2) show "k \<in> set (map fst (filter (\<lambda>(k, v). P v) xs))"
    by force
qed

lemma killer_effect:
  assumes inv: "registryInv tp"
  shows "TxPool_transactionKiller env tp =
     tp\<lparr>active := filter (\<lambda>(k, v). \<not> outdated env (transactionTimeout tp) v) (active tp),
        txConns := (\<lambda>q. if q \<in> set (outdatedIDs env tp) then killed env (txConns tp q)
                         else txConns tp q),
        killCounter := killCounter tp + int (length (outdatedIDs env tp)),
        events := events tp @ concat (map (killEvents env tp) (outdatedIDs env tp))\<rparr>"
proof -
  let ?P = "outdated env (transactionTimeout tp)"
  let ?ks = "outdatedIDs env tp"
  let ?mark = "\<lambda>(k, v). if ?P v then (k, v\<lparr>inUse := True, purpose := ''for tx killer rollback''\<rparr>) else (k, v)"
  let ?tp1 = "tp\<lparr>active := map ?mark (active tp)\<rparr>"
  have dk: "distinct (map fst (active tp))"
    using inv by (simp add: registryInv_def)
  have g: "ActivePool_GetOutdated env (TxPool_Timeout tp) ''for tx killer rollback'' tp = (?ks, ?tp1)"
    by (simp add: ActivePool_GetOutdated_def outdatedIDs_def TxPool_Timeout_def)
  have sub: "set ?ks \<subseteq> set (map fst (active tp))"
    by (auto simp: outdatedIDs_def)
  have d: "distinct ?ks"
    unfolding outdatedIDs_def using dk by (simp add: distinct_map_filter)
  have p: "\<forall>k \<in> set ?ks. TransactionID (txConns ?tp1 k) = k \<and> dbConn (txConns ?tp1 k) \<noteq> None"
    using inv sub by (auto simp: registryInv_def)
  have ke: "killEvents env ?tp1 = killEvents env tp"
    by (simp add: killEvents_def fun_eq_iff)
  have sw: "filter (\<lambda>(k, v). k \<notin> set ?ks) (map ?mark (active tp)) =
            filter (\<lambda>(k, v). \<not> ?P v) (active tp)"
  proof (rule sweep_marked)
    show "\<forall>(k, v) \<in> set (active tp). (k \<in> set ?ks) = ?P v"
      using outdated_keys[OF dk, of _ _ ?P] by (auto simp: outdatedIDs_def)
  qed
  show ?thesis
    unfolding TxPool_transactionKiller_def g
    by (simp add: killAll_effect[OF d p] ke sw cong: if_cong)
qed

lemma closes_concludeEvents [simp]: "count_list (concludeEvents env p c r txc) (EvDbClose k) = 0"
  by (auto simp: concludeEvents_def count_list_0_iff) (metis event.distinct taskEvent.elims)

lemma closes_killEvents: "p \<noteq> k \<Longrightarrow> count_list (killEvents env tp p) (EvDbClose k) = 0"
  by (simp add: killEvents_def)

lemma map_of_mark_other:
  "map_of (map (\<lambda>(k, v). if Q k v then (k, f v) else (k, v)) xs) a =
     (case map_of xs a of None \<Rightarrow> None | Some v \<Rightarrow> Some (if Q a v then f v else v))"
  by (induction xs) auto

lemma keys_mark [simp]:
  "map fst (map (\<lambda>(k, v). if Q k v then (k, f v) else (k, v)) xs) = map fst xs"
  by (induction xs) auto

lemma map_of_sweep:
  "map_of xs a = Some v \<Longrightarrow> P a v \<Longrightarrow> map_of (filter (\<lambda>(k, v). P k v) xs) a = Some v"
  by (induction xs) (auto split: if_splits)

lemma fst_mark [simp]:
  "fst (case x of (k, v) \<Rightarrow> if Q k v then (k, f v) else (k, v)) = fst x"
  by (cases x) simp

lemma fst_o_mark [simp]:
  "fst \<circ> (\<lambda>(k, v). if Q k v then (k, f v) else (k, v)) = fst"
  by (simp add: fun_eq_iff)

lemma Get_state:
  "snd (TxPool_Get transactionID reason tp) = tp \<or>
   (\<exists>v. map_of (active tp) transactionID = Some v \<and> \<not> inUse v \<and>
        snd (TxPool_Get transactionID reason tp) =
          tp\<lparr>active := map (\<lambda>(k, v). if k = transactionID
                                     then (k, v\<lparr>inUse := True, purpose := reason\<rparr>)
                                     else (k, v)) (active tp)\<rparr>)"
  by (auto simp: TxPool_Get_def ActivePool_Get_def split: option.splits)

lemma registryInv_mark:
  "registryInv tp \<Longrightarrow>
   registryInv (tp\<lparr>active := map (\<lambda>(k, v). if Q k v then (k, f v) else (k, v)) (active tp)\<rparr>)"
  by (simp add: registryInv_def)

lemma held_Get:
  assumes h: "heldBy k w c n (tp, pending)"
  shows "heldBy k w c n (snd (TxPool_Get transactionID reason tp), pending)"
proof -
  from Get_state[of transactionID reason tp]
  show ?thesis
  proof
    assume "snd (TxPool_Get transactionID reason tp) = tp"
    with h show ?thesis by simp
  next
    assume "\<exists>v. map_of (active tp) transactionID = Some v \<and> \<not> inUse v \<and>
        snd (TxPool_Get transactionID reason tp) =
          tp\<lparr>active := map (\<lambda>(k, v). if k = transactionID
                                     then (k, v\<lparr>inUse := True, purpose := reason\<rparr>)
                                     else (k, v)) (active tp)\<rparr>"
    then obtain v where v: "map_of (active tp) transactionID = Some v" "\<not> inUse v"
      and s: "snd (TxPool_Get transactionID reason tp) =
          tp\<lparr>active := map (\<lambda>(k, v). if k = transactionID
                                     then (k, v\<lparr>inUse := True, purpose := reason\<rparr>)
                                     else (k, v)) (active tp)\<rparr>"
      by blast
    have ne: "transactionID \<noteq> k"
      using h v by (auto simp: heldBy_def)
    show ?thesis
      using h ne registryInv_mark[of tp "\<lambda>k v. k = transactionID"]
      by (simp add: heldBy_def s map_of_mark_other)
  qed
qed

lemma held_Scan:
  assumes h: "heldBy k w c n (tp, [])"
  shows "heldBy k w c n
     (snd (ActivePool_GetOutdated env (TxPool_Timeout tp) ''for tx killer rollback'' tp),
      fst (ActivePool_GetOutdated env (TxPool_Timeout tp) ''for tx killer rollback'' tp))"
proof -
  let ?P = "outdated env (transactionTimeout tp)"
  have dk: "distinct (map fst (active tp))" and kw: "map_of (active tp) k = Some w" and u: "inUse w"
    using h by (simp_all add: heldBy_def registryInv_def)
  have nP: "\<not> ?P w"
    using u by (simp add: outdated_def)
  have mem: "(k, w) \<in> set (active tp)"
    using kw by (rule map_of_SomeD)
  have nk: "k \<notin> set (map fst (filter (\<lambda>(k, v). ?P v) (active tp)))"
    using outdated_keys[OF dk mem, of ?P] nP by simp
  have d: "distinct (map fst (filter (\<lambda>(k, v). ?P v) (active tp)))"
    using dk by (simp add: distinct_map_filter)
  show ?thesis
    using h nk d nP registryInv_mark[of tp "\<lambda>k v. ?P v"]
    by (auto simp: heldBy_def ActivePool_GetOutdated_def TxPool_Timeout_def map_of_mark_other)
qed

lemma held_Kill:
  assumes h: "heldBy k w c n (tp, p # ps)"
  shows "heldBy k w c n (killConn env p tp, ps)"
proof -
  have inv: "registryInv tp" and dp: "distinct (p # ps)" and sub: "set (p # ps) \<subseteq> set (map fst (active tp))"
    and nk: "k \<notin> set (p # ps)" and kw: "map_of (active tp) k = Some w" and u: "inUse w"
    and c: "txConns tp k = c" and n: "count_list (events tp) (EvDbClose k) = n"
    using h by (simp_all add: heldBy_def)
  have pk: "p \<noteq> k" using nk by auto
  have live: "dbConn (txConns tp p) \<noteq> None" and tid: "TransactionID (txConns tp p) = p"
    using inv sub by (auto simp: registryInv_def)
  note e = killConn_effect[OF live tid, of env]
  have keys: "set (map fst (filter (\<lambda>(k', v). k' \<noteq> p) (active tp))) = set (map fst (active tp)) - {p}"
    by auto
  have inv': "registryInv (killConn env p tp)"
    using inv by (auto simp: e registryInv_def distinct_map_filter)
  have sub': "set ps \<subseteq> set (map fst (active (killConn env p tp)))"
    using sub dp by (force simp: e)
  have kw': "map_of (active (killConn env p tp)) k = Some w"
    using map_of_sweep[OF kw, of "\<lambda>a v. a \<noteq> p"] pk by (simp add: e)
  have cnt: "count_list (events (killConn env p tp)) (EvDbClose k) = n"
    using n closes_killEvents[OF pk, of env tp] by (simp add: e)
  show ?thesis
    using inv' sub' kw' cnt dp nk u c pk
    by (simp add: heldBy_def) (simp add: e)
qed

lemma held_step: "heldBy k w c n s \<Longrightarrow> heldBy k w c n (runStep step s)"
proof (cases s)
  case (Pair tp pending)
  assume h: "heldBy k w c n s"
  show ?thesis
  proof (cases step)
    case (StepGet i r)
    with h Pair show ?thesis by (simp add: held_Get)
  next
    case (StepScan env)
    show ?thesis
    proof (cases "pending = []")
      case True
      with h Pair StepScan held_Scan[of k w c n tp env] show ?thesis
        by (simp add: case_prod_unfold)
    next
      case False
      with h Pair StepScan show ?thesis by simp
    qed
  next
    case (StepKill env)
    show ?thesis
    proof (cases pending)
      case Nil
      with h Pair StepKill show ?thesis by simp
    next
      case (Cons p ps)
      with h Pair StepKill held_Kill[of k w c n tp p ps env] show ?thesis by simp
    qed
  qed
qed

lemma held_steps: "heldBy k w c n s \<Longrightarrow> heldBy k w c n (runSteps steps s)"
  unfolding runSteps_def
  by (induction steps arbitrary: s) (simp_all add: held_step)

lemma kills_run:
  "foldl (\<lambda>s step. runStep step s) (tp, ks @ rest) (map (\<lambda>k. StepKill env) ks) =
     (foldl (\<lambda>s conn. killConn env conn s) tp ks, rest)"
  by (induction ks arbitrary: tp) simp_all

lemma tick_as_steps:
  "runSteps (StepScan env # map (\<lambda>k. StepKill env) (outdatedIDs env tp)) (tp, []) =
     (TxPool_transactionKiller env tp, [])"
proof -
  have g: "fst (ActivePool_GetOutdated env (TxPool_Timeout tp) ''for tx killer rollback'' tp) =
           outdatedIDs env tp"
    by (simp add: ActivePool_GetOutdated_def outdatedIDs_def TxPool_Timeout_def)
  show ?thesis
    using kills_run[of "snd (ActivePool_GetOutdated env (TxPool_Timeout tp) ''for tx killer rollback'' tp)"
        "outdatedIDs env tp" "[]" env]
    by (simp add: runSteps_def TxPool_transactionKiller_def case_prod_unfold g)
qed

lemma closes_killAll:
  "distinct ks \<Longrightarrow>
   count_list (concat (map (killEvents env tp) ks)) (EvDbClose k) = (if k \<in> set ks then 1 else 0)"
  by (induction ks) (auto simp: killEvents_def)

lemma outdatedIDs_set:
  "set (outdatedIDs env tp) =
     {k. \<exists>v. (k, v) \<in> set (active tp) \<and> \<not> inUse v \<and> transactionTimeout tp < now env - timeUsed v}"
  by (auto simp: outdatedIDs_def outdated_def) force

lemma map_of_swept_absent:
  "map_of xs a = None \<Longrightarrow> map_of (filter P xs) a = None"
  by (induction xs) auto

lemma map_of_swept_out:
  assumes "distinct (map fst xs)" and "(a, v) \<in> set xs" and "\<not> P v"
  shows "map_of (filter (\<lambda>(k, v). P v) xs) a = None"
proof (rule ccontr)
  assume "map_of (filter (\<lambda>(k, v). P v) xs) a \<noteq> None"
  then obtain v' where "map_of (filter (\<lambda>(k, v). P v) xs) a = Some v'"
    by auto
  then have "(a, v') \<in> set (filter (\<lambda>(k, v). P v) xs)"
    by (rule map_of_SomeD)
  then have "(a, v') \<in> set xs" and "P v'"
    by auto
  with assms show False
    using eq_key_imp_eq_value by fastforce
qed

lemma killer_registry:
  assumes inv: "registryInv tp"
  shows "map_of (active (TxPool_transactionKiller env tp)) k =
     (if k \<in> set (outdatedIDs env tp) then None else map_of (active tp) k)"
proof -
  let ?P = "outdated env (transactionTimeout tp)"
  have dk: "distinct (map fst (active tp))"
    using inv by (simp add: registryInv_def)
  have a: "active (TxPool_transactionKiller env tp) = filter (\<lambda>(k, v). \<not> ?P v) (active tp)"
    by (simp add: killer_effect[OF inv])
  show ?thesis
  proof (cases "map_of (active tp) k")
    case None
    then have "k \<notin> fst ` set (active tp)"
      by (simp add: map_of_eq_None_iff)
    then have "k \<notin> set (outdatedIDs env tp)"
      by (auto simp: outdatedIDs_def)
    with None show ?thesis
      by (simp add: a map_of_swept_absent)
  next
    case (Some v)
    then have mem: "(k, v) \<in> set (active tp)"
      by (rule map_of_SomeD)
    have iff: "(k \<in> set (outdatedIDs env tp)) = ?P v"
      using outdated_keys[OF dk mem, of ?P] by (simp add: outdatedIDs_def)
    show ?thesis
    proof (cases "?P v")
      case True
      with iff map_of_swept_out[OF dk mem, of "\<lambda>v. \<not> ?P v"] show ?thesis
        by (simp add: a)
    next
      case False
      with iff Some map_of_sweep[OF Some, of "\<lambda>k v. \<not> ?P v"] show ?thesis
        by (simp add: a)
    qed
  qed
qed

lemma killer_inv:
  assumes inv: "registryInv tp"
  shows "registryInv (TxPool_transactionKiller env tp)"
proof -
  let ?P = "outdated env (transactionTimeout tp)"
  have dk: "distinct (map fst (active tp))"
    using inv by (simp add: registryInv_def)
  have keep: "k \<notin> set (outdatedIDs env tp)" if "(k, v) \<in> set (active tp)" and "\<not> ?P v" for k v
    using outdated_keys[OF dk that(1), of ?P] that(2) by (simp add: outdatedIDs_def)
  show ?thesis
    using inv keep
    by (auto simp: killer_effect[OF inv] registryInv_def distinct_map_filter)
qed

lemma map_of_registered: "map_of xs k = Some w \<Longrightarrow> k \<in> set (map fst xs)"
  by (induction xs) (auto split: if_splits)

lemma killerInv_Get:
  assumes h: "killerInv (tp, pending)"
  shows "killerInv (snd (TxPool_Get transactionID reason tp), pending)"
proof -
  from Get_state[of transactionID reason tp]
  show ?thesis
  proof
    assume "snd (TxPool_Get transactionID reason tp) = tp"
    with h show ?thesis by simp
  next
    assume "\<exists>v. map_of (active tp) transactionID = Some v \<and> \<not> inUse v \<and>
        snd (TxPool_Get transactionID reason tp) =
          tp\<lparr>active := map (\<lambda>(k, v). if k = transactionID
                                     then (k, v\<lparr>inUse := True, purpose := reason\<rparr>)
                                     else (k, v)) (active tp)\<rparr>"
    then obtain v where s: "snd (TxPool_Get transactionID reason tp) =
          tp\<lparr>active := map (\<lambda>(k, v). if k = transactionID
                                     then (k, v\<lparr>inUse := True, purpose := reason\<rparr>)
                                     else (k, v)) (active tp)\<rparr>"
      by blast
    show ?thesis
      using h registryInv_mark[of tp "\<lambda>k v. k = transactionID"]
      by (auto simp: killerInv_def s map_of_mark_other)
  qed
qed

lemma killerInv_Scan:
  assumes h: "killerInv (tp, [])"
  shows "killerInv
     (snd (ActivePool_GetOutdated env (TxPool_Timeout tp) ''for tx killer rollback'' tp),
      fst (ActivePool_GetOutdated env (TxPool_Timeout tp) ''for tx killer rollback'' tp))"
proof -
  let ?P = "outdated env (transactionTimeout tp)"
  have inv: "registryInv tp"
    using h by (simp add: killerInv_def)
  then have dk: "distinct (map fst (active tp))"
    by (simp add: registryInv_def)
  have d: "distinct (map fst (filter (\<lambda>(k, v). ?P v) (active tp)))"
    using dk by (simp add: distinct_map_filter)
  have m: "\<exists>w. map_of (active tp) k = Some w \<and> ?P w"
    if "k \<in> set (map fst (filter (\<lambda>(k, v). ?P v) (active tp)))" for k
  proof -
    from that obtain v where "(k, v) \<in> set (active tp)" and "?P v"
      by auto
    with dk show ?thesis
      by (auto intro: map_of_is_SomeI)
  qed
  show ?thesis
    using inv d m registryInv_mark[of tp "\<lambda>k v. ?P v"]
    by (fastforce simp: killerInv_def ActivePool_GetOutdated_def TxPool_Timeout_def map_of_mark_other)
qed

lemma killerInv_Kill:
  assumes h: "killerInv (tp, p # ps)"
  shows "killerInv (killConn env p tp, ps)"
proof -
  have inv: "registryInv tp" and dp: "distinct (p # ps)"
    and held: "\<forall>k \<in> set (p # ps). \<exists>w. map_of (active tp) k = Some w \<and> inUse w"
    using h by (simp_all add: killerInv_def)
  have reg: "p \<in> set (map fst (active tp))"
    using held map_of_registered[of "active tp" p] by auto
  have live: "dbConn (txConns tp p) \<noteq> None" and tid: "TransactionID (txConns tp p) = p"
    using inv reg by (auto simp: registryInv_def)
  note e = killConn_effect[OF live tid, of env]
  have inv': "registryInv (killConn env p tp)"
    using inv by (auto simp: e registryInv_def distinct_map_filter)
  have held': "\<exists>w. map_of (active (killConn env p tp)) k = Some w \<and> inUse w" if "k \<in> set ps" for k
  proof -
    from that held obtain w where w: "map_of (active tp) k = Some w" and u: "inUse w"
      by auto
    have "k \<noteq> p" using that dp by auto
    with map_of_sweep[OF w, of "\<lambda>a v. a \<noteq> p"] u show ?thesis
      by (simp add: e)
  qed
  show ?thesis
    using inv' held' dp by (simp add: killerInv_def)
qed

lemma killerInv_step: "killerInv s \<Longrightarrow> killerInv (runStep step s)"
proof (cases s)
  case (Pair tp pending)
  assume h: "killerInv s"
  show ?thesis
  proof (cases step)
    case (StepGet i r)
    with h Pair show ?thesis by (simp add: killerInv_Get)
  next
    case (StepScan env)
    show ?thesis
    proof (cases "pending = []")
      case True
      with h Pair StepScan killerInv_Scan[of tp env] show ?thesis
        by (simp add: case_prod_unfold)
    next
      case False
      with h Pair StepScan show ?thesis by simp
    qed
  next
    case (StepKill env)
    show ?thesis
    proof (cases pending)
      case Nil
      with h Pair StepKill show ?thesis by simp
    next
      case (Cons p ps)
      with h Pair StepKill killerInv_Kill[of tp p ps env] show ?thesis by simp
    qed
  qed
qed

lemma killerInv_steps: "killerInv s \<Longrightarrow> killerInv (runSteps steps s)"
  unfolding runSteps_def
  by (induction steps arbitrary: s) (simp_all add: killerInv_step)

lemma killerInv_start: "registryInv tp \<Longrightarrow> killerInv (tp, [])"
  by (simp add: killerInv_def)

lemma runSteps_append: "runSteps (xs @ ys) s = runSteps ys (runSteps xs s)"
  by (simp add: runSteps_def)

lemma runSteps_Cons: "runSteps (x # xs) s = runSteps xs (runStep x s)"
  by (simp add: runSteps_def)

lemma checkout_held:
  assumes h: "killerInv s" and g: "fst (TxPool_Get k reason (fst s)) = Inr conn"
  shows "\<exists>w. map_of (active (fst s)) k = Some w \<and> \<not> inUse w \<and> conn = k \<and>
        heldBy k (w\<lparr>inUse := True, purpose := reason\<rparr>) (txConns (fst s) k)
          (count_list (events (fst s)) (EvDbClose k)) (runStep (StepGet k reason) s)"
proof (cases s)
  case (Pair tp pending)
  from g Pair obtain w where w: "map_of (active tp) k = Some w" and u: "\<not> inUse w" and c: "conn = k"
    by (auto simp: TxPool_Get_def ActivePool_Get_def split: option.splits if_splits)
  have s: "snd (TxPool_Get k reason tp) =
          tp\<lparr>active := map (\<lambda>(k', v). if k' = k
                                     then (k', v\<lparr>inUse := True, purpose := reason\<rparr>)
                                     else (k', v)) (active tp)\<rparr>"
    using w u by (simp add: TxPool_Get_def ActivePool_Get_def)
  have inv: "registryInv tp" and dp: "distinct pending"
    and held: "\<forall>k \<in> set pending. \<exists>w. map_of (active tp) k = Some w \<and> inUse w"
    using h Pair by (simp_all add: killerInv_def)
  have nk: "k \<notin> set pending"
    using held w u by auto
  have sub: "set pending \<subseteq> set (map fst (active tp))"
    using held map_of_registered[of "active tp"] by blast
  show ?thesis
    using Pair w u c inv dp nk sub registryInv_mark[of tp "\<lambda>k' v. k' = k"]
    by (simp add: heldBy_def s map_of_mark_other)
qed

lemma checked_out_survives:
  assumes inv: "registryInv tp"
    and g: "fst (TxPool_Get k reason (fst (runSteps pre (tp, [])))) = Inr conn"
  shows "map_of (active (fst (runSteps (pre @ StepGet k reason # post) (tp, [])))) k =
           map_option (\<lambda>w. w\<lparr>inUse := True, purpose := reason\<rparr>)
             (map_of (active (fst (runSteps pre (tp, [])))) k)
    \<and> map_of (active (fst (runSteps (pre @ StepGet k reason # post) (tp, [])))) k \<noteq> None
    \<and> txConns (fst (runSteps (pre @ StepGet k reason # post) (tp, []))) k =
        txConns (fst (runSteps pre (tp, []))) k
    \<and> dbConn (txConns (fst (runSteps (pre @ StepGet k reason # post) (tp, []))) k) \<noteq> None
    \<and> count_list (events (fst (runSteps (pre @ StepGet k reason # post) (tp, [])))) (EvDbClose k) =
        count_list (events (fst (runSteps pre (tp, [])))) (EvDbClose k)
    \<and> k \<notin> set (snd (runSteps (pre @ StepGet k reason # post) (tp, [])))"
proof -
  let ?s = "runSteps pre (tp, [])"
  have ki: "killerInv ?s"
    using inv by (simp add: killerInv_start killerInv_steps)
  from checkout_held[OF ki g] obtain w where w: "map_of (active (fst ?s)) k = Some w"
    and hb: "heldBy k (w\<lparr>inUse := True, purpose := reason\<rparr>) (txConns (fst ?s) k)
          (count_list (events (fst ?s)) (EvDbClose k)) (runStep (StepGet k reason) ?s)"
    by blast
  have "heldBy k (w\<lparr>inUse := True, purpose := reason\<rparr>) (txConns (fst ?s) k)
          (count_list (events (fst ?s)) (EvDbClose k))
          (runSteps post (runStep (StepGet k reason) ?s))"
    using hb by (rule held_steps)
  then have f: "heldBy k (w\<lparr>inUse := True, purpose := reason\<rparr>) (txConns (fst ?s) k)
          (count_list (events (fst ?s)) (EvDbClose k))
          (runSteps (pre @ StepGet k reason # post) (tp, []))"
    by (simp add: runSteps_append runSteps_Cons)
  then have live: "dbConn (txConns (fst (runSteps (pre @ StepGet k reason # post) (tp, []))) k) \<noteq> None"
    using map_of_registered[of "active (fst (runSteps (pre @ StepGet k reason # post) (tp, [])))" k]
    by (auto simp: heldBy_def registryInv_def)
  show ?thesis
    using f live w by (simp add: heldBy_def)
qed

section \<open>Admission\<close>

text \<open>
  Claim C1. For every context and options, if the admission limiter rejects the pair of
  the immediate and the effective caller, or the connection pool is at capacity (it
  answers \<^verbatim>\<open>pools.ErrTimeout\<close>), or the context deadline has already expired (it
  answers \<^verbatim>\<open>pools.ErrCtxTimeout\<close>), then \<^verbatim>\<open>TxPool.Begin\<close> returns ConnID 0, an
  empty begin statement and an error with the RESOURCE_EXHAUSTED code; the registry of
  active transactions and the identifier counter are as before, so no transaction is
  registered.
\<close>

theorem Begin_admission_rejected:
  "\<not> limiterGet env (immediateCallerID ctx) (effectiveCallerID ctx)
     \<or> poolGet env = Inl ErrTimeout \<or> poolGet env = Inl ErrCtxTimeout \<Longrightarrow>
   (\<exists>m. fst (TxPool_Begin env ctx options tp) = (0, [], Some (Errorf Code_RESOURCE_EXHAUSTED m [])))
   \<and> active (snd (TxPool_Begin env ctx options tp)) = active tp
   \<and> lastID (snd (TxPool_Begin env ctx options tp)) = lastID tp"
  by (auto simp: TxPool_Begin_def ActivePool_NewConn_def LogActive_frame Let_def)

theorem Begin_admission_rejected_witness:
  "poolGet (exampleEnv\<lparr>poolGet := Inl ErrTimeout\<rparr>) = Inl ErrTimeout
   \<and> (\<exists>m. fst (TxPool_Begin (exampleEnv\<lparr>poolGet := Inl ErrTimeout\<rparr>) exampleCtx None examplePool)
          = (0, [], Some (Errorf Code_RESOURCE_EXHAUSTED m [])))
   \<and> active (snd (TxPool_Begin (exampleEnv\<lparr>poolGet := Inl ErrTimeout\<rparr>) exampleCtx None examplePool))
       = [(7, \<lparr>inUse = False, purpose = [], timeUsed = 100\<rparr>)]
   \<and> lastID (snd (TxPool_Begin (exampleEnv\<lparr>poolGet := Inl ErrTimeout\<rparr>) exampleCtx None examplePool)) = 7"
  using Begin_admission_rejected [of "exampleEnv\<lparr>poolGet := Inl ErrTimeout\<rparr>" exampleCtx None examplePool]
  by (simp add: examplePool_def)

section \<open>Isolation levels\<close>

lemma txIsolations_listed:
  "(txIsolations lvl \<noteq> None) =
   (lvl \<in> {DEFAULT, REPEATABLE_READ, READ_COMMITTED, READ_UNCOMMITTED, SERIALIZABLE,
           CONSISTENT_SNAPSHOT_READ_ONLY})"
  by (cases lvl) simp_all

lemma Begin_autocommit:
  assumes lim: "limiterGet env (immediateCallerID ctx) (effectiveCallerID ctx)"
    and pool: "poolGet env = Inr d"
    and fresh: "map_of (active tp) (lastID tp + 1) = None"
    and iso: "GetTransactionIsolation options = AUTOCOMMIT"
  shows "fst (TxPool_Begin env ctx options tp) = (lastID tp + 1, [], None)"
    and "events (snd (TxPool_Begin env ctx options tp)) =
         events tp @ [EvLimiterGet (immediateCallerID ctx) (effectiveCallerID ctx) True]"
  using fresh
  by (simp_all add: Begin_admitted[OF lim] NewConn_ok[OF pool] Let_def
        beginFunc_autocommit[OF iso] newTxConnection_def updConn_def)

lemma Release_frame:
  "lastID (TxConnection_Release env p r tp) = lastID tp"
  by (cases "dbConn (txConns tp p) = None")
     (simp_all add: TxConnection_Release_def conclude_done conclude_effect)

lemma Begin_unrecognized:
  assumes lim: "limiterGet env (immediateCallerID ctx) (effectiveCallerID ctx)"
    and pool: "poolGet env = Inr d"
    and iso: "GetTransactionIsolation options = UNRECOGNIZED n"
  shows "fst (TxPool_Begin env ctx options tp) =
     (0, [], Some (Errorf Code_INTERNAL ''don't know how to open a transaction of this type: %v''
                     [ArgIsolation (UNRECOGNIZED n)]))"
  by (simp add: Begin_admitted[OF lim] NewConn_ok[OF pool] Let_def beginFunc_unrecognized[OF iso])

text \<open>
  Claim C3. For every isolation level among DEFAULT, REPEATABLE READ, READ COMMITTED,
  READ UNCOMMITTED, SERIALIZABLE and CONSISTENT-SNAPSHOT-READ-ONLY (exactly the levels
  the table has an entry for), \<^verbatim>\<open>TxPool.Begin\<close> executes the table's optional
  set-isolation-level statement followed by its open-transaction statement and returns
  the concatenation (the isolation text and "; " when present, then the open statement)
  as the begin statement text; for AUTOCOMMIT it executes no statement and returns the
  empty string; for any isolation value outside these seven, Begin fails with an internal
  error. This is what Begin does once the limiter has admitted the caller and the
  connection pool has handed out a connection, with the next identifier free in the
  registry and the database accepting the statements.
\<close>

theorem Begin_isolation:
  assumes lim: "limiterGet env (immediateCallerID ctx) (effectiveCallerID ctx)"
    and pool: "poolGet env = Inr d"
    and fresh: "map_of (active tp) (lastID tp + 1) = None"
  shows
    "((txIsolations (GetTransactionIsolation options) \<noteq> None) =
        (GetTransactionIsolation options \<in>
           {DEFAULT, REPEATABLE_READ, READ_COMMITTED, READ_UNCOMMITTED, SERIALIZABLE,
            CONSISTENT_SNAPSHOT_READ_ONLY}))
     \<and> (\<forall>qs. txIsolations (GetTransactionIsolation options) = Some qs
             \<and> (\<forall>q \<in> set (beginStatements qs). dbExec env (lastID tp + 1) q = None) \<longrightarrow>
           fst (TxPool_Begin env ctx options tp) = (lastID tp + 1, beginText qs, None)
           \<and> events (snd (TxPool_Begin env ctx options tp)) =
               events tp @ EvLimiterGet (immediateCallerID ctx) (effectiveCallerID ctx) True
                 # map (EvExec (lastID tp + 1)) (beginStatements qs))
     \<and> (GetTransactionIsolation options = AUTOCOMMIT \<longrightarrow>
           fst (TxPool_Begin env ctx options tp) = (lastID tp + 1, [], None)
           \<and> events (snd (TxPool_Begin env ctx options tp)) =
               events tp @ [EvLimiterGet (immediateCallerID ctx) (effectiveCallerID ctx) True])
     \<and> (\<forall>n. GetTransactionIsolation options = UNRECOGNIZED n \<longrightarrow>
           fst (TxPool_Begin env ctx options tp) =
             (0, [], Some (Errorf Code_INTERNAL
                             ''don't know how to open a transaction of this type: %v''
                             [ArgIsolation (UNRECOGNIZED n)])))"
  using Begin_listed[OF lim pool fresh] Begin_autocommit[OF lim pool fresh]
    Begin_unrecognized[OF lim pool] txIsolations_listed
  by blast

theorem Begin_isolation_witness:
  "fst (TxPool_Begin exampleEnv exampleCtx (exampleOptions READ_COMMITTED) examplePool) =
     (8, ''READ COMMITTED; begin'', None)
   \<and> events (snd (TxPool_Begin exampleEnv exampleCtx (exampleOptions READ_COMMITTED) examplePool)) =
       [EvLimiterGet (Some \<lparr>username = ''alice'', groups = []\<rparr>) None True,
        EvExec 8 ''set transaction isolation level READ COMMITTED'',
        EvExec 8 ''begin'']
   \<and> fst (TxPool_Begin exampleEnv exampleCtx (exampleOptions AUTOCOMMIT) examplePool) = (8, [], None)
   \<and> events (snd (TxPool_Begin exampleEnv exampleCtx (exampleOptions AUTOCOMMIT) examplePool)) =
       [EvLimiterGet (Some \<lparr>username = ''alice'', groups = []\<rparr>) None True]
   \<and> fst (TxPool_Begin exampleEnv exampleCtx (exampleOptions (UNRECOGNIZED 9)) examplePool) =
       (0, [], Some (Errorf Code_INTERNAL ''don't know how to open a transaction of this type: %v''
                       [ArgIsolation (UNRECOGNIZED 9)]))"
  using Begin_isolation [of exampleEnv exampleCtx "\<lparr>isClosed = False\<rparr>" examplePool "exampleOptions READ_COMMITTED"]
    Begin_isolation [of exampleEnv exampleCtx "\<lparr>isClosed = False\<rparr>" examplePool "exampleOptions AUTOCOMMIT"]
    Begin_isolation [of exampleEnv exampleCtx "\<lparr>isClosed = False\<rparr>" examplePool "exampleOptions (UNRECOGNIZED 9)"]
  by (simp add: exampleEnv_def exampleCtx_def examplePool_def exampleOptions_def
        GetTransactionIsolation_def beginStatements_def beginText_def)

section \<open>Concluding twice\<close>

lemma Release_concluded:
  "dbConn (txConns (TxConnection_Release env p r tp) p) = None"
  by (simp add: TxConnection_Release_def conclude_concluded)

lemma LocalCommit_concluded:
  "dbConn (txConns (snd (TxPool_LocalCommit env ctx p tp)) p) = None"
  by (simp add: TxPool_LocalCommit_def Release_concluded split: prod.splits option.splits)

lemma localRollback_concluded:
  "dbConn (txConns (snd (TxPool_localRollback env ctx p tp)) p) = None"
  by (simp add: TxPool_localRollback_def Release_concluded split: prod.splits option.splits)

lemma killConn_concluded:
  "dbConn (txConns (killConn env p tp) p) = None"
  by (simp add: killConn_def conclude_concluded)

lemma runConclude_done:
  "dbConn (txConns tp p) = None \<Longrightarrow> runConclude p call tp = tp"
proof (cases call)
  case (Pair env c)
  assume "dbConn (txConns tp p) = None"
  then show ?thesis
    unfolding Pair
    by (cases c) (simp_all add: TxConnection_Release_def conclude_done TxPool_LocalConclude_def)
qed

lemma runConcludes_done:
  "dbConn (txConns tp p) = None \<Longrightarrow> runConcludes p calls tp = tp"
  unfolding runConcludes_def
  by (induction calls) (simp_all add: runConclude_done)

text \<open>
  Claim C10. Concluding a TxConnection is idempotent. A first conclusion (Release,
  conclude, commit, rollback or kill) clears the underlying database connection; every
  further Release, conclude or LocalConclude on the same TxConnection is then a no-op:
  the pool is as the first conclusion left it. So over a first conclusion and any run of
  further calls the events are those of one conclusion (one unregistration, one return
  of the database connection, each shutdown task with its limiter release once, one
  statistics and log record), or none if the connection had been concluded before.
\<close>

theorem concluding_is_idempotent:
  "dbConn (txConns (TxConnection_Release env p r tp) p) = None
   \<and> dbConn (txConns (TxConnection_conclude env p c m tp) p) = None
   \<and> dbConn (txConns (snd (TxPool_LocalCommit env ctx p tp)) p) = None
   \<and> dbConn (txConns (snd (TxPool_localRollback env ctx p tp)) p) = None
   \<and> dbConn (txConns (killConn env p tp) p) = None
   \<and> (dbConn (txConns tp p) = None \<longrightarrow> runConcludes p calls tp = tp)
   \<and> runConcludes p calls (TxConnection_conclude env p c m tp) = TxConnection_conclude env p c m tp
   \<and> events (runConcludes p calls (TxConnection_conclude env p c m tp)) =
       events tp @ (if dbConn (txConns tp p) = None then []
                    else concludeEvents env p c m (txConns tp p))"
  by (simp add: Release_concluded conclude_concluded LocalCommit_concluded localRollback_concluded
        killConn_concluded runConcludes_done conclude_done conclude_effect)

theorem concluding_is_idempotent_witness:
  "events (runConcludes 7
      [(exampleEnv, CallRelease TxRollback), (exampleEnv, CallLocalConclude exampleCtx),
       (exampleEnv, CallConclude TxKill (plain TxKill))]
      (TxConnection_conclude exampleEnv 7 TxCommit (plain TxCommit) examplePool)) =
     [EvUnregister 7 (''commit'', []), EvDbRecycle 7,
      EvLimiterRelease (Some \<lparr>username = ''alice'', groups = []\<rparr>) None,
      EvStats ''alice'' ''commit'' 60000000000, EvTxLogger 7]"
proof -
  have "events (runConcludes 7
      [(exampleEnv, CallRelease TxRollback), (exampleEnv, CallLocalConclude exampleCtx),
       (exampleEnv, CallConclude TxKill (plain TxKill))]
      (TxConnection_conclude exampleEnv 7 TxCommit (plain TxCommit) examplePool)) =
     events examplePool @ (if dbConn (txConns examplePool 7) = None then []
        else concludeEvents exampleEnv 7 TxCommit (plain TxCommit) (txConns examplePool 7))"
    using concluding_is_idempotent [of exampleEnv 7 TxCommit examplePool TxCommit "plain TxCommit" exampleCtx
      "[(exampleEnv, CallRelease TxRollback), (exampleEnv, CallLocalConclude exampleCtx),
        (exampleEnv, CallConclude TxKill (plain TxKill))]"]
    by blast
  then show ?thesis
    by (simp add: examplePool_def exampleConn_def exampleEnv_def concludeEvents_def TxCommit_def plain_def)
qed

section \<open>Autocommit\<close>

text \<open>
  Claim C5. For every transaction whose autocommit flag is set, \<^verbatim>\<open>TxPool.Commit\<close> (via
  \<^verbatim>\<open>LocalCommit\<close>) executes no "commit" statement and returns the empty string, and
  \<^verbatim>\<open>TxPool.Rollback\<close> (via \<^verbatim>\<open>localRollback\<close>) executes no "rollback" statement: the
  statements sent to the database are the same before and after. In both cases the
  connection is concluded, and a connection that was still live is unregistered and
  handed back to the connection pool, with the conclusion "commit".
\<close>

theorem autocommit_skips_statement:
  assumes "Autocommit (txConns tp conn)"
  shows "fst (TxPool_LocalCommit env ctx conn tp) = ([], None)
    \<and> fst (TxPool_localRollback env ctx conn tp) = None
    \<and> statements (events (snd (TxPool_LocalCommit env ctx conn tp))) = statements (events tp)
    \<and> statements (events (snd (TxPool_localRollback env ctx conn tp))) = statements (events tp)
    \<and> dbConn (txConns (snd (TxPool_LocalCommit env ctx conn tp)) conn) = None
    \<and> dbConn (txConns (snd (TxPool_localRollback env ctx conn tp)) conn) = None
    \<and> (dbConn (txConns tp conn) \<noteq> None \<longrightarrow>
         events (snd (TxPool_LocalCommit env ctx conn tp)) =
           events tp @ concludeEvents env conn TxCommit (plain TxCommit) (txConns tp conn)
         \<and> events (snd (TxPool_localRollback env ctx conn tp)) =
           events tp @ concludeEvents env conn TxCommit (plain TxCommit) (txConns tp conn)
         \<and> EvDbRecycle conn \<in> set (concludeEvents env conn TxCommit (plain TxCommit) (txConns tp conn))
         \<and> map_of (active (snd (TxPool_LocalCommit env ctx conn tp))) (TransactionID (txConns tp conn)) = None
         \<and> map_of (active (snd (TxPool_localRollback env ctx conn tp))) (TransactionID (txConns tp conn)) = None)
    \<and> (\<forall>w. map_of (active tp) conn = Some w \<and> \<not> inUse w \<longrightarrow>
         fst (TxPool_Commit env ctx conn tp) = ([], None)
         \<and> fst (TxPool_Rollback env ctx conn tp) = None
         \<and> statements (events (snd (TxPool_Commit env ctx conn tp))) = statements (events tp)
         \<and> statements (events (snd (TxPool_Rollback env ctx conn tp))) = statements (events tp)
         \<and> dbConn (txConns (snd (TxPool_Commit env ctx conn tp)) conn) = None
         \<and> dbConn (txConns (snd (TxPool_Rollback env ctx conn tp)) conn) = None)"
proof -
  have local: "fst (TxPool_LocalCommit env ctx conn tp) = ([], None)
    \<and> fst (TxPool_localRollback env ctx conn tp) = None
    \<and> statements (events (snd (TxPool_LocalCommit env ctx conn tp))) = statements (events tp)
    \<and> statements (events (snd (TxPool_localRollback env ctx conn tp))) = statements (events tp)
    \<and> dbConn (txConns (snd (TxPool_LocalCommit env ctx conn tp)) conn) = None
    \<and> dbConn (txConns (snd (TxPool_localRollback env ctx conn tp)) conn) = None"
    by (simp add: LocalCommit_autocommit[OF assms] Release_effect)
  have live: "dbConn (txConns tp conn) \<noteq> None \<longrightarrow>
         events (snd (TxPool_LocalCommit env ctx conn tp)) =
           events tp @ concludeEvents env conn TxCommit (plain TxCommit) (txConns tp conn)
         \<and> events (snd (TxPool_localRollback env ctx conn tp)) =
           events tp @ concludeEvents env conn TxCommit (plain TxCommit) (txConns tp conn)
         \<and> EvDbRecycle conn \<in> set (concludeEvents env conn TxCommit (plain TxCommit) (txConns tp conn))
         \<and> map_of (active (snd (TxPool_LocalCommit env ctx conn tp))) (TransactionID (txConns tp conn)) = None
         \<and> map_of (active (snd (TxPool_localRollback env ctx conn tp))) (TransactionID (txConns tp conn)) = None"
    by (simp add: LocalCommit_autocommit[OF assms] Release_effect concludeEvents_def)
  have byid: "\<forall>w. map_of (active tp) conn = Some w \<and> \<not> inUse w \<longrightarrow>
         fst (TxPool_Commit env ctx conn tp) = ([], None)
         \<and> fst (TxPool_Rollback env ctx conn tp) = None
         \<and> statements (events (snd (TxPool_Commit env ctx conn tp))) = statements (events tp)
         \<and> statements (events (snd (TxPool_Rollback env ctx conn tp))) = statements (events tp)
         \<and> dbConn (txConns (snd (TxPool_Commit env ctx conn tp)) conn) = None
         \<and> dbConn (txConns (snd (TxPool_Rollback env ctx conn tp)) conn) = None"
  proof (intro allI impI)
    fix w
    assume w: "map_of (active tp) conn = Some w \<and> \<not> inUse w"
    then have g: "\<And>reason. TxPool_Get conn reason tp =
       (Inr conn, tp\<lparr>active := map (\<lambda>(k, v). if k = conn
                                 then (k, v\<lparr>inUse := True, purpose := reason\<rparr>)
                                 else (k, v)) (active tp)\<rparr>)"
      using Get_idle by blast
    show "fst (TxPool_Commit env ctx conn tp) = ([], None)
         \<and> fst (TxPool_Rollback env ctx conn tp) = None
         \<and> statements (events (snd (TxPool_Commit env ctx conn tp))) = statements (events tp)
         \<and> statements (events (snd (TxPool_Rollback env ctx conn tp))) = statements (events tp)
         \<and> dbConn (txConns (snd (TxPool_Commit env ctx conn tp)) conn) = None
         \<and> dbConn (txConns (snd (TxPool_Rollback env ctx conn tp)) conn) = None"
      using assms
      by (simp add: TxPool_Commit_def TxPool_Rollback_def g LocalCommit_autocommit Release_effect)
  qed
  from local live byid show ?thesis by blast
qed

theorem autocommit_skips_statement_witness:
  "fst (TxPool_Commit exampleEnv exampleCtx 7 autocommitPool) = ([], None)
   \<and> fst (TxPool_Rollback exampleEnv exampleCtx 7 autocommitPool) = None
   \<and> statements (events (snd (TxPool_Commit exampleEnv exampleCtx 7 autocommitPool))) = []
   \<and> statements (events (snd (TxPool_Rollback exampleEnv exampleCtx 7 autocommitPool))) = []
   \<and> events (snd (TxPool_LocalCommit exampleEnv exampleCtx 7 autocommitPool)) =
       [EvUnregister 7 (''commit'', []), EvDbRecycle 7,
        EvLimiterRelease (Some \<lparr>username = ''alice'', groups = []\<rparr>) None,
        EvStats ''alice'' ''commit'' 60000000000, EvTxLogger 7]
   \<and> map_of (active (snd (TxPool_LocalCommit exampleEnv exampleCtx 7 autocommitPool))) 7 = None"
proof -
  have a: "Autocommit (txConns autocommitPool 7)"
    by (simp add: autocommitPool_def)
  have l: "dbConn (txConns autocommitPool 7) \<noteq> None"
    by (simp add: autocommitPool_def examplePool_def exampleConn_def)
  have r: "map_of (active autocommitPool) 7 = Some \<lparr>inUse = False, purpose = [], timeUsed = 100\<rparr>
           \<and> \<not> inUse \<lparr>inUse = False, purpose = [], timeUsed = 100\<rparr>"
    by (simp add: autocommitPool_def examplePool_def)
  have t: "TransactionID (txConns autocommitPool 7) = 7" "events autocommitPool = []"
    by (simp_all add: autocommitPool_def examplePool_def exampleConn_def)
  note c = autocommit_skips_statement [OF a, of exampleEnv exampleCtx]
  from c l have live: "events (snd (TxPool_LocalCommit exampleEnv exampleCtx 7 autocommitPool)) =
           events autocommitPool @ concludeEvents exampleEnv 7 TxCommit (plain TxCommit) (txConns autocommitPool 7)
     \<and> map_of (active (snd (TxPool_LocalCommit exampleEnv exampleCtx 7 autocommitPool)))
          (TransactionID (txConns autocommitPool 7)) = None"
    by blast
  from c r have byid: "fst (TxPool_Commit exampleEnv exampleCtx 7 autocommitPool) = ([], None)
         \<and> fst (TxPool_Rollback exampleEnv exampleCtx 7 autocommitPool) = None
         \<and> statements (events (snd (TxPool_Commit exampleEnv exampleCtx 7 autocommitPool))) = statements (events autocommitPool)
         \<and> statements (events (snd (TxPool_Rollback exampleEnv exampleCtx 7 autocommitPool))) = statements (events autocommitPool)"
    by blast
  from live byid show ?thesis
    by (simp add: t)
       (simp add: autocommitPool_def examplePool_def exampleConn_def exampleEnv_def
          concludeEvents_def TxCommit_def plain_def)
qed

section \<open>Begin, commit, get\<close>

text \<open>
  Claim C2. For every transaction successfully started with \<^verbatim>\<open>TxPool.Begin\<close>, a
  subsequent \<^verbatim>\<open>TxPool.Commit\<close> on its ConnID records the conclusion "commit" and
  removes the ConnID from the active registry, where Begin had put it, and any later
  \<^verbatim>\<open>TxPool.Get\<close> on that same ConnID fails with an error carrying the ABORTED code.
  Commit returns "commit" when the transaction is not in autocommit mode and the
  database accepts the statement.
\<close>

theorem Begin_Commit_Get:
  assumes "TxPool_Begin env ctx options tp = ((transactionID, sql, None), tp1)"
  shows "map_of (active tp1) transactionID \<noteq> None
    \<and> map_of (active (snd (TxPool_Commit env2 ctx2 transactionID tp1))) transactionID = None
    \<and> Conclusion (txConns (snd (TxPool_Commit env2 ctx2 transactionID tp1)) transactionID) = TxCommit
    \<and> fst (TxPool_Get transactionID reason (snd (TxPool_Commit env2 ctx2 transactionID tp1))) =
        Inl (Errorf Code_ABORTED ''transaction %d: %v'' [ArgInt transactionID, ArgErr NotFound])
    \<and> fst (TxPool_Commit env2 ctx2 transactionID tp1) =
        (if GetTransactionIsolation options = AUTOCOMMIT then ([], None)
         else (case dbExec env2 transactionID ''commit'' of
                 None \<Rightarrow> (''commit'', None) | Some e \<Rightarrow> ([], Some e)))"
proof -
  note b = Begin_success[OF assms]
  let ?w = "\<lparr>inUse = False, purpose = [], timeUsed = now env\<rparr>"
  have reg: "map_of (active tp1) transactionID = Some ?w"
    using b(2) b(3) by (simp add: map_add_def)
  define tpg where "tpg = tp1\<lparr>active := map (\<lambda>(k, v). if k = transactionID
                                 then (k, v\<lparr>inUse := True, purpose := ''for commit''\<rparr>)
                                 else (k, v)) (active tp1)\<rparr>"
  have g: "TxPool_Get transactionID ''for commit'' tp1 = (Inr transactionID, tpg)"
    using Get_idle[OF reg] by (simp add: tpg_def)
  have live: "dbConn (txConns tpg transactionID) \<noteq> None"
    and tid: "TransactionID (txConns tpg transactionID) = transactionID"
    and auto: "Autocommit (txConns tpg transactionID) = (GetTransactionIsolation options = AUTOCOMMIT)"
    using b by (simp_all add: tpg_def)
  have c: "TxPool_Commit env2 ctx2 transactionID tp1 = TxPool_LocalCommit env2 ctx2 transactionID tpg"
    by (simp add: TxPool_Commit_def g)
  note lc = LocalCommit_live[OF live tid, of env2 ctx2]
  have gone: "map_of (active (snd (TxPool_Commit env2 ctx2 transactionID tp1))) transactionID = None"
    by (simp add: c lc(1))
  show ?thesis
    using reg gone lc(2) lc(3) auto
    by (simp add: c Get_unknown)
qed

theorem Begin_Commit_Get_witness:
  "fst (TxPool_Begin exampleEnv exampleCtx (exampleOptions DEFAULT) examplePool) = (8, ''begin'', None)
   \<and> map_of (active (snd (TxPool_Begin exampleEnv exampleCtx (exampleOptions DEFAULT) examplePool))) 8 \<noteq> None
   \<and> map_of (active (snd (TxPool_Commit exampleEnv exampleCtx 8
        (snd (TxPool_Begin exampleEnv exampleCtx (exampleOptions DEFAULT) examplePool))))) 8 = None
   \<and> Conclusion (txConns (snd (TxPool_Commit exampleEnv exampleCtx 8
        (snd (TxPool_Begin exampleEnv exampleCtx (exampleOptions DEFAULT) examplePool)))) 8) = ''commit''
   \<and> fst (TxPool_Commit exampleEnv exampleCtx 8
        (snd (TxPool_Begin exampleEnv exampleCtx (exampleOptions DEFAULT) examplePool))) = (''commit'', None)
   \<and> fst (TxPool_Get 8 ''for query'' (snd (TxPool_Commit exampleEnv exampleCtx 8
        (snd (TxPool_Begin exampleEnv exampleCtx (exampleOptions DEFAULT) examplePool))))) =
       Inl (Errorf Code_ABORTED ''transaction %d: %v'' [ArgInt 8, ArgErr NotFound])"
proof -
  have f: "fst (TxPool_Begin exampleEnv exampleCtx (exampleOptions DEFAULT) examplePool) = (8, ''begin'', None)"
    using Begin_listed(1) [of exampleEnv exampleCtx "\<lparr>isClosed = False\<rparr>" examplePool
        "exampleOptions DEFAULT" "\<lparr>setIsolationLevel = [], openTransaction = ''begin''\<rparr>"]
    by (simp add: exampleEnv_def examplePool_def exampleOptions_def GetTransactionIsolation_def
          beginText_def)
  then have b: "TxPool_Begin exampleEnv exampleCtx (exampleOptions DEFAULT) examplePool =
      ((8, ''begin'', None), snd (TxPool_Begin exampleEnv exampleCtx (exampleOptions DEFAULT) examplePool))"
    by (metis prod.collapse)
  show ?thesis
    using f Begin_Commit_Get [OF b, of exampleEnv exampleCtx "''for query''"]
    by (simp add: exampleEnv_def exampleOptions_def GetTransactionIsolation_def TxCommit_def)
qed

section \<open>Broadcasting health\<close>

lemma trySend_frame [simp]:
  "responses (trySend shr ch hs) = responses hs"
  "state (trySend shr ch hs) = state hs"
  "clients (trySend shr ch hs) = clients hs"
  "serving (trySend shr ch hs) = serving hs"
  "nextResponse (trySend shr ch hs) = nextResponse hs"
  by (simp_all add: trySend_def)

lemma trySend_channels:
  "channels (trySend shr c hs) ch =
     (if ch = c \<and> channels hs ch = [] then [shr] else channels hs ch)"
  by (auto simp: trySend_def)

lemma sendAll_frame:
  "responses (foldl (\<lambda>h ch. trySend shr ch h) hs cs) = responses hs \<and>
   state (foldl (\<lambda>h ch. trySend shr ch h) hs cs) = state hs \<and>
   clients (foldl (\<lambda>h ch. trySend shr ch h) hs cs) = clients hs \<and>
   serving (foldl (\<lambda>h ch. trySend shr ch h) hs cs) = serving hs \<and>
   nextResponse (foldl (\<lambda>h ch. trySend shr ch h) hs cs) = nextResponse hs"
  by (induction cs arbitrary: hs) simp_all

lemma sendAll_channels:
  "channels (foldl (\<lambda>h ch. trySend shr ch h) hs cs) ch =
     (if ch \<in> set cs \<and> channels hs ch = [] then [shr] else channels hs ch)"
proof (induction cs arbitrary: hs)
  case Nil
  then show ?case by simp
next
  case (Cons c cs)
  show ?case
    by (simp add: Cons.IH trySend_channels)
qed

lemma Broadcast_unfold:
  assumes "clients hs \<noteq> []"
  shows "Broadcast env hs =
    foldl (\<lambda>h ch. trySend (nextResponse hs) ch h)
      (hs\<lparr>responses := (responses hs)
             (state hs := (responses hs (state hs))
                \<lparr>Serving := (serving hs \<and> healthy env hs),
                 RealtimeStats := (RealtimeStats (responses hs (state hs)))
                   \<lparr>HealthError := (case replStatusFunc env of Inl e \<Rightarrow> e | Inr lag \<Rightarrow> []),
                    SecondsBehindMaster := (case replStatusFunc env of Inl e \<Rightarrow> 0 | Inr lag \<Rightarrow> lagSeconds env lag),
                    SecondsBehindMasterFilteredReplication := fst (blpStatusFunc env),
                    BinlogPlayersCount := snd (blpStatusFunc env),
                    Qps := totalRate env\<rparr>\<rparr>,
              nextResponse hs := (responses hs (state hs))
                \<lparr>Serving := (serving hs \<and> healthy env hs),
                 RealtimeStats := (RealtimeStats (responses hs (state hs)))
                   \<lparr>HealthError := (case replStatusFunc env of Inl e \<Rightarrow> e | Inr lag \<Rightarrow> []),
                    SecondsBehindMaster := (case replStatusFunc env of Inl e \<Rightarrow> 0 | Inr lag \<Rightarrow> lagSeconds env lag),
                    SecondsBehindMasterFilteredReplication := fst (blpStatusFunc env),
                    BinlogPlayersCount := snd (blpStatusFunc env),
                    Qps := totalRate env\<rparr>\<rparr>),
          nextResponse := Suc (nextResponse hs)\<rparr>)
      (clients hs)"
  using assms
  by (cases "replStatusFunc env") (simp_all add: Broadcast_def Let_def clone_def healthy_def)

text \<open>
  Claim C8. On every Broadcast with at least one subscriber, the health streamer sets
  the snapshot's serving field to (internal serving flag and lag within the unhealthy
  threshold); when the replication-status probe returns an error it sets the health
  error to the error text, the reported lag to 0 and serving to false. The clone made of
  the snapshot is a separate object with the same content, no other response changes,
  and each subscriber receives the clone through a non-blocking send: it is queued in a
  free slot and dropped if the subscriber's single slot is full. The snapshot was
  allocated before any clone, which is the second hypothesis.
\<close>

theorem Broadcast_snapshot:
  assumes sub: "clients hs \<noteq> []" and alloc: "state hs < nextResponse hs"
  shows "state (Broadcast env hs) = state hs
    \<and> Serving (responses (Broadcast env hs) (state hs)) =
        (serving hs \<and> (case replStatusFunc env of Inl e \<Rightarrow> False | Inr lag \<Rightarrow> lag \<le> unhealthyThreshold hs))
    \<and> (\<forall>e. replStatusFunc env = Inl e \<longrightarrow>
          HealthError (RealtimeStats (responses (Broadcast env hs) (state hs))) = e
          \<and> SecondsBehindMaster (RealtimeStats (responses (Broadcast env hs) (state hs))) = 0
          \<and> \<not> Serving (responses (Broadcast env hs) (state hs)))
    \<and> nextResponse hs \<noteq> state hs
    \<and> responses (Broadcast env hs) (nextResponse hs) = responses (Broadcast env hs) (state hs)
    \<and> (\<forall>a. a \<noteq> state hs \<and> a \<noteq> nextResponse hs \<longrightarrow> responses (Broadcast env hs) a = responses hs a)
    \<and> (\<forall>ch \<in> set (clients hs).
          channels (Broadcast env hs) ch =
            (if channels hs ch = [] then [nextResponse hs] else channels hs ch))
    \<and> (\<forall>ch. ch \<notin> set (clients hs) \<longrightarrow> channels (Broadcast env hs) ch = channels hs ch)"
  using alloc
  by (simp add: Broadcast_unfold[OF sub] sendAll_frame sendAll_channels healthy_def)

theorem Broadcast_snapshot_witness:
  "Serving (responses (Broadcast exampleHealthEnv exampleStreamer) 0)
   \<and> channels (Broadcast exampleHealthEnv exampleStreamer) 0 = [2]
   \<and> channels (Broadcast exampleHealthEnv exampleStreamer) 1 = [1]
   \<and> responses (Broadcast exampleHealthEnv exampleStreamer) 2 =
       responses (Broadcast exampleHealthEnv exampleStreamer) 0
   \<and> HealthError (RealtimeStats (responses
        (Broadcast (exampleHealthEnv\<lparr>replStatusFunc := Inl ''no replication''\<rparr>) exampleStreamer) 0))
       = ''no replication''
   \<and> SecondsBehindMaster (RealtimeStats (responses
        (Broadcast (exampleHealthEnv\<lparr>replStatusFunc := Inl ''no replication''\<rparr>) exampleStreamer) 0)) = 0
   \<and> \<not> Serving (responses
        (Broadcast (exampleHealthEnv\<lparr>replStatusFunc := Inl ''no replication''\<rparr>) exampleStreamer) 0)"
proof -
  have sub: "clients exampleStreamer \<noteq> []" and alloc: "state exampleStreamer < nextResponse exampleStreamer"
    by (simp_all add: exampleStreamer_def)
  show ?thesis
    using Broadcast_snapshot [OF sub alloc, of exampleHealthEnv]
      Broadcast_snapshot [OF sub alloc, of "exampleHealthEnv\<lparr>replStatusFunc := Inl ''no replication''\<rparr>"]
    by (simp add: exampleStreamer_def exampleHealthEnv_def)
qed

section \<open>Picking tablets\<close>

lemma expandCells_eq: "expandCells ts cs acc = acc @ resolvedCells ts cs"
  by (induction cs arbitrary: acc) (simp_all add: resolvedCells_def split: sum.splits)

lemma collectAliases_eq: "collectAliases ts ks sh cs acc = acc @ shardAliases ts ks sh cs"
  by (induction cs arbitrary: acc) (simp_all add: shardAliases_def split: sum.splits)

lemma selectTablets_eq:
  "selectTablets ts m types as acc =
     acc @ concat (map (\<lambda>a. case m (TabletAliasString ts a) of
                               None \<Rightarrow> []
                             | Some t \<Rightarrow> if Type t \<in> set types then [t] else []) as)"
  by (induction as arbitrary: acc)
     (simp_all add: IsTypeInList_def split: option.splits)

lemma only_master: "(length types = 1 \<and> hd types = MASTER) = (types = [MASTER])"
  by (cases types) auto

text \<open>
  Claim C9. When the Tablet Picker's requested role is PRIMARY (the one type MASTER),
  candidate resolution takes the shard's primary alias directly from shard metadata and
  ignores the configured cell list; for any other requested role set, each configured
  cell is first expanded through the cell-alias lookup and the candidates are the
  tablets in the resolved cells matching keyspace, shard and one of the requested roles.
  In both cases every candidate has one of the requested roles.
\<close>

theorem getMatchingTablets_resolution:
  "(tabletTypes tp = [MASTER] \<longrightarrow>
      getMatchingTablets ts tp =
        (case GetShard ts (keyspace tp) (shard tp) of
           Inl e \<Rightarrow> []
         | Inr primary \<Rightarrow> tabletsOfType ts [MASTER] [primary])
      \<and> getMatchingTablets ts (tp\<lparr>cells := cs\<rparr>) = getMatchingTablets ts tp)
   \<and> (tabletTypes tp \<noteq> [MASTER] \<longrightarrow>
      getMatchingTablets ts tp =
        tabletsOfType ts (tabletTypes tp)
          (shardAliases ts (keyspace tp) (shard tp) (resolvedCells ts (cells tp))))
   \<and> (\<forall>t \<in> set (getMatchingTablets ts tp). Type t \<in> set (tabletTypes tp))"
proof -
  have sel: "\<forall>t \<in> set (tabletsOfType ts types aliases). Type t \<in> set types" for types aliases
    by (auto simp: tabletsOfType_def split: sum.splits option.splits if_splits)
  have m: "tabletTypes tp = [MASTER] \<longrightarrow>
      getMatchingTablets ts tp =
        (case GetShard ts (keyspace tp) (shard tp) of
           Inl e \<Rightarrow> []
         | Inr primary \<Rightarrow> tabletsOfType ts [MASTER] [primary])
      \<and> getMatchingTablets ts (tp\<lparr>cells := cs\<rparr>) = getMatchingTablets ts tp"
    by (simp add: getMatchingTablets_def tabletsOfType_def selectTablets_eq split: sum.splits)
  have o: "tabletTypes tp \<noteq> [MASTER] \<longrightarrow>
      getMatchingTablets ts tp =
        tabletsOfType ts (tabletTypes tp)
          (shardAliases ts (keyspace tp) (shard tp) (resolvedCells ts (cells tp)))"
    using only_master[of "tabletTypes tp"]
    by (auto simp: getMatchingTablets_def tabletsOfType_def selectTablets_eq
          expandCells_eq collectAliases_eq split: sum.splits)
  have ty: "\<forall>t \<in> set (getMatchingTablets ts tp). Type t \<in> set (tabletTypes tp)"
  proof (cases "tabletTypes tp = [MASTER]")
    case True
    with m sel[of "[MASTER]"] show ?thesis
      by (auto split: sum.splits)
  next
    case False
    with o sel show ?thesis by simp
  qed
  from m o ty show ?thesis by blast
qed

theorem getMatchingTablets_resolution_witness:
  "getMatchingTablets exampleTopo primaryPicker = [exampleTablet ''zone1'' 100 MASTER]
   \<and> getMatchingTablets exampleTopo (primaryPicker\<lparr>cells := [''region'']\<rparr>) =
       getMatchingTablets exampleTopo primaryPicker
   \<and> getMatchingTablets exampleTopo replicaPicker =
       [exampleTablet ''zone1'' 101 REPLICA, exampleTablet ''zone2'' 200 RDONLY]"
proof -
  have p: "tabletTypes primaryPicker = [MASTER]" and r: "tabletTypes replicaPicker \<noteq> [MASTER]"
    by (simp_all add: primaryPicker_def replicaPicker_def)
  have a: "getMatchingTablets exampleTopo primaryPicker =
        (case GetShard exampleTopo (keyspace primaryPicker) (shard primaryPicker) of
           Inl e \<Rightarrow> []
         | Inr primary \<Rightarrow> tabletsOfType exampleTopo [MASTER] [primary])"
    and b: "getMatchingTablets exampleTopo (primaryPicker\<lparr>cells := [''region'']\<rparr>) =
        getMatchingTablets exampleTopo primaryPicker"
    using p getMatchingTablets_resolution [of primaryPicker exampleTopo "[''region'']"]
    by blast+
  have c: "getMatchingTablets exampleTopo replicaPicker =
        tabletsOfType exampleTopo (tabletTypes replicaPicker)
          (shardAliases exampleTopo (keyspace replicaPicker) (shard replicaPicker)
             (resolvedCells exampleTopo (cells replicaPicker)))"
    using r getMatchingTablets_resolution [of replicaPicker exampleTopo "[]"]
    by blast
  have a': "getMatchingTablets exampleTopo primaryPicker = [exampleTablet ''zone1'' 100 MASTER]"
    unfolding a
    by (simp add: primaryPicker_def exampleTopo_def tabletsOfType_def exampleTablet_def)
  have c': "getMatchingTablets exampleTopo replicaPicker =
       [exampleTablet ''zone1'' 101 REPLICA, exampleTablet ''zone2'' 200 RDONLY]"
    unfolding c
    by (simp add: replicaPicker_def exampleTopo_def resolvedCells_def shardAliases_def
          tabletsOfType_def exampleTablet_def)
  from a' b c' show ?thesis by simp
qed

section \<open>Setting the serving type\<close>

lemma SetServingType_applied:
  "appliedConfiguration (snd (SetServingType f tt ts st e sm)) = (tt, st, e)"
  by (auto simp: SetServingType_def execTransition_def appliedConfiguration_def Let_def
           split: option.splits)

lemma SetServingType_changed:
  "fst (fst (SetServingType f tt ts st e sm)) = ((tt, st, e) \<noteq> appliedConfiguration sm)"
  by (auto simp: SetServingType_def execTransition_def appliedConfiguration_def Let_def
           split: option.splits)

lemma SetServingType_transitions:
  "transitions (snd (SetServingType f tt ts st e sm)) =
     (if (tt, st, e) = appliedConfiguration sm then transitions sm
      else transitions sm @ [(tt, landingState tt st)])"
  by (auto simp: SetServingType_def execTransition_def appliedConfiguration_def Let_def
           split: option.splits)

lemma SetServingType_noop:
  "(tt, st, e) = appliedConfiguration sm \<Longrightarrow>
   SetServingType f tt ts st e sm = ((False, None), sm\<lparr>lameduck := False\<rparr>)"
  by (auto simp: SetServingType_def appliedConfiguration_def)

lemma runCalls_changes:
  "fst (runCalls calls sm) = expectedChanges calls (appliedConfiguration sm)"
proof (induction calls arbitrary: sm)
  case Nil
  then show ?case by simp
next
  case (Cons c cs)
  obtain changed e sm1 where s: "SetServingType (callFailure c) (callTabletType c) (callTimestamp c)
             (callWantState c) (callErr c) sm = ((changed, e), sm1)"
    by (metis prod.collapse)
  have c1: "changed = ((callTabletType c, callWantState c, callErr c) \<noteq> appliedConfiguration sm)"
    using SetServingType_changed[of "callFailure c" "callTabletType c" "callTimestamp c"
        "callWantState c" "callErr c" sm] s by simp
  have c2: "appliedConfiguration sm1 = (callTabletType c, callWantState c, callErr c)"
    using SetServingType_applied[of "callFailure c" "callTabletType c" "callTimestamp c"
        "callWantState c" "callErr c" sm] s by simp
  show ?case
    using Cons.IH[of sm1] by (auto simp: s c1 c2 split: prod.splits)
qed

text \<open>
  Claim C6. For every sequence of \<^verbatim>\<open>SetServingType\<close> calls, a call returns changed =
  false (performing no subcomponent transition) only when its tabletType, wantState and
  triggeringError arguments are identical to the currently-applied configuration;
  whenever any of the three differs, the call performs the transition and returns
  changed = true. After a call its arguments are the applied configuration, so in a run
  of calls each answer says whether the call differs from the one before it.
\<close>

theorem SetServingType_noop_only_when_identical:
  "fst (fst (SetServingType f tt ts st e sm)) =
     (\<not> (tt = wantTabletType sm \<and> st = wantState sm \<and> e = transitionErr sm))
   \<and> transitions (snd (SetServingType f tt ts st e sm)) =
       (if tt = wantTabletType sm \<and> st = wantState sm \<and> e = transitionErr sm
        then transitions sm else transitions sm @ [(tt, landingState tt st)])
   \<and> (tt = wantTabletType sm \<and> st = wantState sm \<and> e = transitionErr sm \<longrightarrow>
        SetServingType f tt ts st e sm = ((False, None), sm\<lparr>lameduck := False\<rparr>))
   \<and> appliedConfiguration (snd (SetServingType f tt ts st e sm)) = (tt, st, e)
   \<and> fst (runCalls calls sm) = expectedChanges calls (appliedConfiguration sm)"
  using SetServingType_changed[of f tt ts st e sm] SetServingType_transitions[of f tt ts st e sm]
    SetServingType_noop[of tt st e sm f ts] SetServingType_applied[of f tt ts st e sm]
    runCalls_changes[of calls sm]
  by (simp add: appliedConfiguration_def)

theorem SetServingType_noop_only_when_identical_witness:
  "fst (runCalls [exampleCall REPLICA StateServing None, exampleCall REPLICA StateServing None,
                  exampleCall REPLICA StateServing (Some ''replication broken''),
                  exampleCall RESTORE StateNotServing None, exampleCall BACKUP StateNotServing None]
         newStateManager) = [True, False, True, True, True]
   \<and> SetServingType None UNKNOWN 5 StateNotConnected None newStateManager =
       ((False, None), newStateManager\<lparr>lameduck := False\<rparr>)
   \<and> transitions (snd (SetServingType None RESTORE 5 StateNotServing None newStateManager)) =
       [(RESTORE, StateNotConnected)]"
proof -
  have n: "UNKNOWN = wantTabletType newStateManager \<and> StateNotConnected = wantState newStateManager
           \<and> None = transitionErr newStateManager"
    by (simp add: newStateManager_def)
  have a: "fst (runCalls [exampleCall REPLICA StateServing None, exampleCall REPLICA StateServing None,
                  exampleCall REPLICA StateServing (Some ''replication broken''),
                  exampleCall RESTORE StateNotServing None, exampleCall BACKUP StateNotServing None]
         newStateManager) =
       expectedChanges [exampleCall REPLICA StateServing None, exampleCall REPLICA StateServing None,
                  exampleCall REPLICA StateServing (Some ''replication broken''),
                  exampleCall RESTORE StateNotServing None, exampleCall BACKUP StateNotServing None]
         (appliedConfiguration newStateManager)"
    using SetServingType_noop_only_when_identical by blast
  have b: "SetServingType None UNKNOWN 5 StateNotConnected None newStateManager =
       ((False, None), newStateManager\<lparr>lameduck := False\<rparr>)"
    using n SetServingType_noop_only_when_identical [of None UNKNOWN 5 StateNotConnected None newStateManager]
    by blast
  have c: "transitions (snd (SetServingType None RESTORE 5 StateNotServing None newStateManager)) =
       (if RESTORE = wantTabletType newStateManager \<and> StateNotServing = wantState newStateManager
            \<and> None = transitionErr newStateManager
        then transitions newStateManager
        else transitions newStateManager @ [(RESTORE, landingState RESTORE StateNotServing)])"
    using SetServingType_noop_only_when_identical [of None RESTORE 5 StateNotServing None newStateManager]
    by blast
  show ?thesis
    unfolding a c using b
    by (simp add: appliedConfiguration_def newStateManager_def exampleCall_def landingState_def)
qed

section \<open>Gating requests\<close>




section \<open>The reaper and checked-out connections\<close>

text \<open>
  Claim C4. On every reaper tick, the transaction killer closes and concludes (as
  killed, with the kill counter incremented for each) exactly those registered
  TxConnections that have been idle longer than the configured transaction timeout and
  are not currently checked out: they leave the registry, their database connection is
  closed once and given up, their conclusion is "kill"; every other connection, entry
  and close count is as before. A tick is a scan followed by one kill for each
  connection the scan found. A connection that is checked out (in use via Get) is never
  closed by the reaper, for all interleavings of Get calls with the scans and the kills
  of reaper ticks. This holds for a connection that is checked out when the interleaving
  starts, and for a connection that a Get checks out at any point of the interleaving,
  between or in the middle of ticks: whenever that Get succeeds, then after any further
  steps the connection is still registered, under the entry the Get left, is the same
  object, still owns its database connection, has been closed no more often than when
  it was checked out, and is not among the connections the killer holds. The pool is
  one that keeps the invariant of the registry, which a tick preserves.
\<close>

theorem reaper_kills_idle_spares_checked_out:
  assumes inv: "registryInv tp"
  shows "active (TxPool_transactionKiller env tp) =
           filter (\<lambda>(k, v). \<not> outdated env (transactionTimeout tp) v) (active tp)
    \<and> set (outdatedIDs env tp) =
        {k. \<exists>v. (k, v) \<in> set (active tp) \<and> \<not> inUse v
                 \<and> transactionTimeout tp < now env - timeUsed v}
    \<and> (\<forall>k \<in> set (outdatedIDs env tp).
          txConns (TxPool_transactionKiller env tp) k = killed env (txConns tp k)
          \<and> count_list (events (TxPool_transactionKiller env tp)) (EvDbClose k) =
              count_list (events tp) (EvDbClose k) + 1
          \<and> map_of (active (TxPool_transactionKiller env tp)) k = None)
    \<and> (\<forall>k. k \<notin> set (outdatedIDs env tp) \<longrightarrow>
          txConns (TxPool_transactionKiller env tp) k = txConns tp k
          \<and> count_list (events (TxPool_transactionKiller env tp)) (EvDbClose k) =
              count_list (events tp) (EvDbClose k)
          \<and> map_of (active (TxPool_transactionKiller env tp)) k = map_of (active tp) k)
    \<and> killCounter (TxPool_transactionKiller env tp) =
        killCounter tp + int (length (outdatedIDs env tp))
    \<and> registryInv (TxPool_transactionKiller env tp)
    \<and> runSteps (StepScan env # map (\<lambda>k. StepKill env) (outdatedIDs env tp)) (tp, []) =
        (TxPool_transactionKiller env tp, [])
    \<and> (\<forall>k w steps. map_of (active tp) k = Some w \<and> inUse w \<longrightarrow>
          map_of (active (fst (runSteps steps (tp, [])))) k = Some w
          \<and> txConns (fst (runSteps steps (tp, []))) k = txConns tp k
          \<and> count_list (events (fst (runSteps steps (tp, [])))) (EvDbClose k) =
              count_list (events tp) (EvDbClose k)
          \<and> k \<notin> set (snd (runSteps steps (tp, []))))
    \<and> (\<forall>pre k reason conn post.
          fst (TxPool_Get k reason (fst (runSteps pre (tp, [])))) = Inr conn \<longrightarrow>
          map_of (active (fst (runSteps (pre @ StepGet k reason # post) (tp, [])))) k =
            map_option (\<lambda>w. w\<lparr>inUse := True, purpose := reason\<rparr>)
              (map_of (active (fst (runSteps pre (tp, [])))) k)
          \<and> map_of (active (fst (runSteps (pre @ StepGet k reason # post) (tp, [])))) k \<noteq> None
          \<and> txConns (fst (runSteps (pre @ StepGet k reason # post) (tp, []))) k =
              txConns (fst (runSteps pre (tp, []))) k
          \<and> dbConn (txConns (fst (runSteps (pre @ StepGet k reason # post) (tp, []))) k) \<noteq> None
          \<and> count_list (events (fst (runSteps (pre @ StepGet k reason # post) (tp, []))))
                (EvDbClose k) =
              count_list (events (fst (runSteps pre (tp, [])))) (EvDbClose k)
          \<and> k \<notin> set (snd (runSteps (pre @ StepGet k reason # post) (tp, []))))"
proof -
  have d: "distinct (outdatedIDs env tp)"
    using inv by (simp add: registryInv_def outdatedIDs_def distinct_map_filter)
  have a: "active (TxPool_transactionKiller env tp) =
           filter (\<lambda>(k, v). \<not> outdated env (transactionTimeout tp) v) (active tp)"
    by (simp add: killer_effect[OF inv])
  have k1: "\<forall>k \<in> set (outdatedIDs env tp).
          txConns (TxPool_transactionKiller env tp) k = killed env (txConns tp k)
          \<and> count_list (events (TxPool_transactionKiller env tp)) (EvDbClose k) =
              count_list (events tp) (EvDbClose k) + 1
          \<and> map_of (active (TxPool_transactionKiller env tp)) k = None"
    by (simp add: killer_registry[OF inv]) (simp add: killer_effect[OF inv] closes_killAll[OF d])
  have k2: "\<forall>k. k \<notin> set (outdatedIDs env tp) \<longrightarrow>
          txConns (TxPool_transactionKiller env tp) k = txConns tp k
          \<and> count_list (events (TxPool_transactionKiller env tp)) (EvDbClose k) =
              count_list (events tp) (EvDbClose k)
          \<and> map_of (active (TxPool_transactionKiller env tp)) k = map_of (active tp) k"
    by (simp add: killer_registry[OF inv]) (simp add: killer_effect[OF inv] closes_killAll[OF d])
  have c: "killCounter (TxPool_transactionKiller env tp) =
        killCounter tp + int (length (outdatedIDs env tp))"
    by (simp add: killer_effect[OF inv])
  have h: "\<forall>k w steps. map_of (active tp) k = Some w \<and> inUse w \<longrightarrow>
          map_of (active (fst (runSteps steps (tp, [])))) k = Some w
          \<and> txConns (fst (runSteps steps (tp, []))) k = txConns tp k
          \<and> count_list (events (fst (runSteps steps (tp, [])))) (EvDbClose k) =
              count_list (events tp) (EvDbClose k)
          \<and> k \<notin> set (snd (runSteps steps (tp, [])))"
  proof (intro allI impI)
    fix k w steps
    assume kw: "map_of (active tp) k = Some w \<and> inUse w"
    then have "heldBy k w (txConns tp k) (count_list (events tp) (EvDbClose k)) (tp, [])"
      using inv by (simp add: heldBy_def)
    then have "heldBy k w (txConns tp k) (count_list (events tp) (EvDbClose k)) (runSteps steps (tp, []))"
      by (rule held_steps)
    then show "map_of (active (fst (runSteps steps (tp, [])))) k = Some w
          \<and> txConns (fst (runSteps steps (tp, []))) k = txConns tp k
          \<and> count_list (events (fst (runSteps steps (tp, [])))) (EvDbClose k) =
              count_list (events tp) (EvDbClose k)
          \<and> k \<notin> set (snd (runSteps steps (tp, [])))"
      by (simp add: heldBy_def)
  qed
  have g: "\<forall>pre k reason conn post.
          fst (TxPool_Get k reason (fst (runSteps pre (tp, [])))) = Inr conn \<longrightarrow>
          map_of (active (fst (runSteps (pre @ StepGet k reason # post) (tp, [])))) k =
            map_option (\<lambda>w. w\<lparr>inUse := True, purpose := reason\<rparr>)
              (map_of (active (fst (runSteps pre (tp, [])))) k)
          \<and> map_of (active (fst (runSteps (pre @ StepGet k reason # post) (tp, [])))) k \<noteq> None
          \<and> txConns (fst (runSteps (pre @ StepGet k reason # post) (tp, []))) k =
              txConns (fst (runSteps pre (tp, []))) k
          \<and> dbConn (txConns (fst (runSteps (pre @ StepGet k reason # post) (tp, []))) k) \<noteq> None
          \<and> count_list (events (fst (runSteps (pre @ StepGet k reason # post) (tp, []))))
                (EvDbClose k) =
              count_list (events (fst (runSteps pre (tp, [])))) (EvDbClose k)
          \<and> k \<notin> set (snd (runSteps (pre @ StepGet k reason # post) (tp, [])))"
    using checked_out_survives[OF inv] by blast
  from a outdatedIDs_set[of env tp] k1 k2 c killer_inv[OF inv, of env] tick_as_steps[of env tp] h g
  show ?thesis by blast
qed

theorem reaper_kills_idle_spares_checked_out_witness:
  "registryInv reaperPool
   \<and> map fst (active (TxPool_transactionKiller exampleEnv reaperPool)) = [8, 9]
   \<and> txConns (TxPool_transactionKiller exampleEnv reaperPool) 7 =
       exampleConn\<lparr>dbConn := None, Conclusion := ''kill'', EndTime := 60000000100\<rparr>
   \<and> count_list (events (TxPool_transactionKiller exampleEnv reaperPool)) (EvDbClose 7) = 1
   \<and> killCounter (TxPool_transactionKiller exampleEnv reaperPool) = 1
   \<and> txConns (TxPool_transactionKiller exampleEnv reaperPool) 8 = exampleConn\<lparr>TransactionID := 8\<rparr>
   \<and> map_of (active (fst (runSteps
         [StepScan exampleEnv, StepGet 8 ''for commit'', StepKill exampleEnv, StepGet 9 ''for query'',
          StepScan (exampleEnv\<lparr>now := 900000000000\<rparr>), StepKill (exampleEnv\<lparr>now := 900000000000\<rparr>)]
         (reaperPool, [])))) 8 = Some \<lparr>inUse = True, purpose = ''for query'', timeUsed = 100\<rparr>
   \<and> txConns (fst (runSteps
         [StepScan exampleEnv, StepGet 8 ''for commit'', StepKill exampleEnv, StepGet 9 ''for query'',
          StepScan (exampleEnv\<lparr>now := 900000000000\<rparr>), StepKill (exampleEnv\<lparr>now := 900000000000\<rparr>)]
         (reaperPool, []))) 8 = exampleConn\<lparr>TransactionID := 8\<rparr>
   \<and> count_list (events (fst (runSteps
         [StepScan exampleEnv, StepGet 8 ''for commit'', StepKill exampleEnv, StepGet 9 ''for query'',
          StepScan (exampleEnv\<lparr>now := 900000000000\<rparr>), StepKill (exampleEnv\<lparr>now := 900000000000\<rparr>)]
         (reaperPool, [])))) (EvDbClose 8) = 0
   \<and> fst (TxPool_Get 9 ''for query'' (fst (runSteps
         [StepScan exampleEnv, StepGet 8 ''for commit'', StepKill exampleEnv] (reaperPool, [])))) = Inr 9
   \<and> map_of (active (fst (runSteps
         [StepScan exampleEnv, StepGet 8 ''for commit'', StepKill exampleEnv, StepGet 9 ''for query'',
          StepScan (exampleEnv\<lparr>now := 900000000000\<rparr>), StepKill (exampleEnv\<lparr>now := 900000000000\<rparr>)]
         (reaperPool, [])))) 9 = Some \<lparr>inUse = True, purpose = ''for query'', timeUsed = 50000000100\<rparr>
   \<and> txConns (fst (runSteps
         [StepScan exampleEnv, StepGet 8 ''for commit'', StepKill exampleEnv, StepGet 9 ''for query'',
          StepScan (exampleEnv\<lparr>now := 900000000000\<rparr>), StepKill (exampleEnv\<lparr>now := 900000000000\<rparr>)]
         (reaperPool, []))) 9 = exampleConn\<lparr>TransactionID := 9\<rparr>
   \<and> count_list (events (fst (runSteps
         [StepScan exampleEnv, StepGet 8 ''for commit'', StepKill exampleEnv, StepGet 9 ''for query'',
          StepScan (exampleEnv\<lparr>now := 900000000000\<rparr>), StepKill (exampleEnv\<lparr>now := 900000000000\<rparr>)]
         (reaperPool, [])))) (EvDbClose 9) = 0
   \<and> map_of (active (fst (runSteps
         [StepScan exampleEnv, StepGet 8 ''for commit'', StepKill exampleEnv,
          StepScan (exampleEnv\<lparr>now := 900000000000\<rparr>), StepKill (exampleEnv\<lparr>now := 900000000000\<rparr>)]
         (reaperPool, [])))) 9 = None"
proof -
  let ?later = "exampleEnv\<lparr>now := 900000000000\<rparr>"
  let ?pre = "[StepScan exampleEnv, StepGet 8 ''for commit'', StepKill exampleEnv]"
  let ?post = "[StepScan ?later, StepKill ?later]"
  let ?steps = "[StepScan exampleEnv, StepGet 8 ''for commit'', StepKill exampleEnv, StepGet 9 ''for query'',
          StepScan ?later, StepKill ?later]"
  let ?K = "TxPool_transactionKiller exampleEnv reaperPool"
  let ?w = "\<lparr>inUse = True, purpose = ''for query'', timeUsed = 100\<rparr>"
  have inv: "registryInv reaperPool"
    by (simp add: registryInv_def reaperPool_def exampleConn_def)
  have ids: "outdatedIDs exampleEnv reaperPool = [7]"
    by (simp add: outdatedIDs_def reaperPool_def exampleEnv_def outdated_def)
  have held: "map_of (active reaperPool) 8 = Some ?w \<and> inUse ?w"
    by (simp add: reaperPool_def)
  note t = reaper_kills_idle_spares_checked_out [OF inv, of exampleEnv]
  have a: "active ?K =
           filter (\<lambda>(k, v). \<not> outdated exampleEnv (transactionTimeout reaperPool) v) (active reaperPool)"
    using t by blast
  have k7: "txConns ?K 7 = killed exampleEnv (txConns reaperPool 7)
      \<and> count_list (events ?K) (EvDbClose 7) = count_list (events reaperPool) (EvDbClose 7) + 1"
    using t ids by simp
  have k8: "txConns ?K 8 = txConns reaperPool 8"
    using t ids by simp
  have k9: "txConns ?K 9 = txConns reaperPool 9
      \<and> count_list (events ?K) (EvDbClose 9) = count_list (events reaperPool) (EvDbClose 9)"
    using t ids by simp
  have c: "killCounter ?K = killCounter reaperPool + int (length (outdatedIDs exampleEnv reaperPool))"
    using t by blast
  have invK: "registryInv ?K"
    using t by blast
  have h: "map_of (active (fst (runSteps ?steps (reaperPool, [])))) 8 = Some ?w
          \<and> txConns (fst (runSteps ?steps (reaperPool, []))) 8 = txConns reaperPool 8
          \<and> count_list (events (fst (runSteps ?steps (reaperPool, [])))) (EvDbClose 8) =
              count_list (events reaperPool) (EvDbClose 8)"
    using t held by blast
  have g0: "ActivePool_GetOutdated exampleEnv (TxPool_Timeout reaperPool) ''for tx killer rollback'' reaperPool =
     ([7], reaperPool\<lparr>active := [(7, \<lparr>inUse = True, purpose = ''for tx killer rollback'', timeUsed = 100\<rparr>),
                (8, \<lparr>inUse = True, purpose = ''for query'', timeUsed = 100\<rparr>),
                (9, \<lparr>inUse = False, purpose = [], timeUsed = 50000000100\<rparr>)]\<rparr>)"
    by (simp add: ActivePool_GetOutdated_def TxPool_Timeout_def reaperPool_def exampleEnv_def outdated_def)
  have pre: "runSteps ?pre (reaperPool, []) = (?K, [])"
    by (simp add: runSteps_def TxPool_transactionKiller_def g0 TxPool_Get_def ActivePool_Get_def)
  have aK: "active ?K = [(8, \<lparr>inUse = True, purpose = ''for query'', timeUsed = 100\<rparr>),
                (9, \<lparr>inUse = False, purpose = [], timeUsed = 50000000100\<rparr>)]"
    by (simp add: a) (simp add: reaperPool_def exampleEnv_def outdated_def)
  have get9: "fst (TxPool_Get 9 ''for query'' (fst (runSteps ?pre (reaperPool, [])))) = Inr 9"
    by (simp add: pre TxPool_Get_def ActivePool_Get_def aK)
  have s9: "map_of (active (fst (runSteps (?pre @ StepGet 9 ''for query'' # ?post) (reaperPool, [])))) 9 =
            map_option (\<lambda>w. w\<lparr>inUse := True, purpose := ''for query''\<rparr>)
              (map_of (active (fst (runSteps ?pre (reaperPool, [])))) 9)
          \<and> txConns (fst (runSteps (?pre @ StepGet 9 ''for query'' # ?post) (reaperPool, []))) 9 =
              txConns (fst (runSteps ?pre (reaperPool, []))) 9
          \<and> count_list (events (fst (runSteps (?pre @ StepGet 9 ''for query'' # ?post) (reaperPool, []))))
                (EvDbClose 9) =
              count_list (events (fst (runSteps ?pre (reaperPool, [])))) (EvDbClose 9)"
    using t get9 by blast
  have ttK: "transactionTimeout ?K = 30000000000"
    by (simp add: killer_effect[OF inv]) (simp add: reaperPool_def)
  have idsK: "outdatedIDs ?later ?K = [9]"
    by (simp add: outdatedIDs_def aK outdated_def ttK)
  have tK: "runSteps ?post (?K, []) = (TxPool_transactionKiller ?later ?K, [])"
    using tick_as_steps[of ?later ?K] by (simp add: idsK)
  have run: "runSteps (?pre @ ?post) (reaperPool, []) = (TxPool_transactionKiller ?later ?K, [])"
    by (simp only: runSteps_append pre tK)
  have gone: "map_of (active (fst (runSteps (?pre @ ?post) (reaperPool, [])))) 9 = None"
    unfolding run by (simp add: killer_registry[OF invK] idsK)
  show ?thesis
    using inv h s9 get9 gone
    by (simp add: a k7 k8 k9 c ids pre aK)
       (simp add: reaperPool_def exampleEnv_def outdated_def killed_def TxKill_def)
qed

end
